theory Spec2Isabelle
  imports Main
begin

section \<open>Constants of controller.py\<close>

text \<open>
  The module-level constants at the end of \<^verbatim>\<open>controller.py\<close>. The marker bytes are
  compared with \<^verbatim>\<open>ord\<close> of a received character, the three limits are Python integers.
\<close>

definition START_MARKER :: nat where
  "START_MARKER = 60"

definition END_MARKER :: nat where
  "END_MARKER = 62"

definition MAX_TURNS :: int where
  "MAX_TURNS = 10"

definition MAX_NUMBER_OF_ARRAYS :: int where
  "MAX_NUMBER_OF_ARRAYS = 4"

definition MAX_NUMBER_OF_MOTORS :: int where
  "MAX_NUMBER_OF_MOTORS = 10"

section \<open>Python values used by the controller\<close>

text \<open>
  Exceptions are values. \<open>Error\<close> is the script's own exception class; the others are the
  built-in exceptions the script's statements can raise.
\<close>

datatype error =
  Error | IndexError | TimeoutError | UnicodeDecodeError | TypeError | AttributeError

text \<open>Python list indexing \<^verbatim>\<open>xs[i]\<close>: a negative index counts from the end, an index
  out of range raises \<^verbatim>\<open>IndexError\<close>.\<close>

definition py_index :: "'a list \<Rightarrow> int \<Rightarrow> error + 'a" where
  "py_index xs i =
     (if 0 \<le> i \<and> i < int (length xs) then Inr (xs ! nat i)
      else if i < 0 \<and> - i \<le> int (length xs) then Inr (xs ! nat (int (length xs) + i))
      else Inl IndexError)"

text \<open>\<^verbatim>\<open>str(n)\<close> of a Python integer: decimal digits, most significant first, no leading
  zero, a minus sign for a negative number.\<close>

definition digit_char :: "nat \<Rightarrow> char" where
  "digit_char d = ''0123456789'' ! d"

fun str_nat :: "nat \<Rightarrow> string" where
  "str_nat n = (if n < 10 then [digit_char n] else str_nat (n div 10) @ [digit_char (n mod 10)])"

declare str_nat.simps [simp del]

definition py_str :: "int \<Rightarrow> string" where
  "py_str i = (if i < 0 then CHR ''-'' # str_nat (nat (- i)) else str_nat (nat i))"

text \<open>\<^verbatim>\<open>s.split(sep)\<close> for a one-character separator: the pieces between the separators,
  empty pieces included, so \<open>k\<close> separators give \<open>k + 1\<close> pieces.\<close>

fun split_sep :: "char \<Rightarrow> string \<Rightarrow> string \<Rightarrow> string list" where
  "split_sep sep piece [] = [piece]"
| "split_sep sep piece (c # cs) =
     (if c = sep then piece # split_sep sep [] cs else split_sep sep (piece @ [c]) cs)"

definition py_split_sep :: "string \<Rightarrow> char \<Rightarrow> string list" where
  "py_split_sep s sep = split_sep sep [] s"

section \<open>Rows of \<^verbatim>\<open>serial_ports\<close>\<close>

text \<open>
  A pyserial object as far as the script uses it: whether the port is open, and the bytes
  that arrive on it (those \<^verbatim>\<open>read()\<close> has not yet taken). Slot 1 of a row holds the
  pyserial object; \<^verbatim>\<open>close_connections\<close> overwrites it with the object's bound method
  \<^verbatim>\<open>close\<close>.
\<close>

record serial =
  is_open :: bool
  incoming :: string

datatype slot = Serial serial | Close_method serial

text \<open>A row after the handshake:
  \<^verbatim>\<open>[address, pyserial object, array number, number of motors]\<close>.\<close>

record port =
  address :: string
  connection :: slot
  array_number :: int
  motors :: int

text \<open>
  The two position grids, as the rows \<^verbatim>\<open>csv.reader\<close> returns for the two CSV files. A
  cell is given as the integer \<^verbatim>\<open>int(cell)\<close> yields: \<^verbatim>\<open>lint_csv_file\<close> has run on
  both files before they are read, so every cell converts.
\<close>

type_synonym grid = "int list list"

section \<open>Command diff engine: \<^verbatim>\<open>commands_from_csv\<close>\<close>

text \<open>The inner loop \<^verbatim>\<open>for count_column, _ in enumerate(desired_row)\<close>; the list argument
  is the part of \<^verbatim>\<open>desired_row\<close> still to visit.\<close>

fun csv_columns :: "int \<Rightarrow> int list \<Rightarrow> int list \<Rightarrow> nat \<Rightarrow> string \<Rightarrow> error + string" where
  "csv_columns motor_count current_row [] count_column command_string = Inr command_string"
| "csv_columns motor_count current_row (desired_cell # rest) count_column command_string =
     (if int count_column < motor_count then
        (case py_index current_row (int count_column) of
           Inl e \<Rightarrow> Inl e
         | Inr current_cell \<Rightarrow>
             (let difference = current_cell - desired_cell in
              csv_columns motor_count current_row rest (Suc count_column)
                (command_string
                 @ (if difference < 0 then ''Down,''
                    else if difference > 0 then ''Up,''
                    else ''None,'')
                 @ py_str (abs difference) @ '','')))
      else csv_columns motor_count current_row rest (Suc count_column) command_string)"

text \<open>The body of the outer loop for one row of \<^verbatim>\<open>serial_ports\<close>: from the command
  string so far to the command string with this array's command appended.\<close>

definition csv_array :: "grid \<Rightarrow> grid \<Rightarrow> port \<Rightarrow> string \<Rightarrow> error + string" where
  "csv_array desired_state_list current_state_list p command_string =
     (case py_index desired_state_list (array_number p) of
        Inl e \<Rightarrow> Inl e
      | Inr desired_row \<Rightarrow>
          (case py_index current_state_list (array_number p) of
             Inl e \<Rightarrow> Inl e
           | Inr current_row \<Rightarrow>
               (case csv_columns (motors p) current_row desired_row 0 (command_string @ ''<'') of
                  Inl e \<Rightarrow> Inl e
                | Inr command_string' \<Rightarrow> Inr (butlast command_string' @ ''>;''))))"

fun csv_arrays :: "grid \<Rightarrow> grid \<Rightarrow> port list \<Rightarrow> string \<Rightarrow> error + string" where
  "csv_arrays desired_state_list current_state_list [] command_string = Inr command_string"
| "csv_arrays desired_state_list current_state_list (p # ps) command_string =
     (case csv_array desired_state_list current_state_list p command_string of
        Inl e \<Rightarrow> Inl e
      | Inr command_string' \<Rightarrow> csv_arrays desired_state_list current_state_list ps command_string')"

text \<open>The command string \<^verbatim>\<open>commands_from_csv\<close> prints and hands to
  \<^verbatim>\<open>execute_commands\<close>.\<close>

definition commands_from_csv :: "grid \<Rightarrow> grid \<Rightarrow> port list \<Rightarrow> error + string" where
  "commands_from_csv desired_state_list current_state_list serial_ports =
     (case csv_arrays desired_state_list current_state_list serial_ports [] of
        Inl e \<Rightarrow> Inl e
      | Inr command_string \<Rightarrow> Inr (butlast command_string))"

section \<open>Reset: \<^verbatim>\<open>commands_from_reset\<close>\<close>

text \<open>What a menu command does to the world outside the script, in the order it does it:
  it rewrites the current-state file, prints, and hands a command string to
  \<^verbatim>\<open>execute_commands\<close>.\<close>

datatype action = Write_current_state grid | Print string | Execute_commands string

text \<open>\<^verbatim>\<open>[["0" for x in range(MAX_NUMBER_OF_ARRAYS)] for y in range(MAX_NUMBER_OF_MOTORS)]\<close>:
  the inner comprehension is one row of the table.\<close>

definition current_state_list_zero :: grid where
  "current_state_list_zero =
     replicate (nat MAX_NUMBER_OF_MOTORS) (replicate (nat MAX_NUMBER_OF_ARRAYS) 0)"

text \<open>\<^verbatim>\<open>for _ in range(serial_ports[count_row][3]): command_string += "Up,100,"\<close>\<close>

fun reset_motors :: "nat \<Rightarrow> string \<Rightarrow> string" where
  "reset_motors 0 command_string = command_string"
| "reset_motors (Suc n) command_string = reset_motors n (command_string @ ''Up,100,'')"

fun reset_arrays :: "port list \<Rightarrow> string \<Rightarrow> string" where
  "reset_arrays [] command_string = command_string"
| "reset_arrays (p # ps) command_string =
     reset_arrays ps (butlast (reset_motors (nat (motors p)) (command_string @ ''<'')) @ ''>;'')"

definition reset_command :: "port list \<Rightarrow> string" where
  "reset_command serial_ports = butlast (reset_arrays serial_ports [])"

definition commands_from_reset :: "port list \<Rightarrow> action list" where
  "commands_from_reset serial_ports =
     [Write_current_state current_state_list_zero,
      Print (reset_command serial_ports),
      Execute_commands (reset_command serial_ports)]"

section \<open>Session registry: \<^verbatim>\<open>lint_serial_port_values\<close>\<close>

text \<open>The terminal colours of the messages: \<^verbatim>\<open>"\033[31m" + s + "\033[0m"\<close> and the same
  with 32.\<close>

definition red :: "string \<Rightarrow> string" where
  "red s = CHR 0x1B # ''[31m'' @ s @ CHR 0x1B # ''[0m''"

definition green :: "string \<Rightarrow> string" where
  "green s = CHR 0x1B # ''[32m'' @ s @ CHR 0x1B # ''[0m''"

text \<open>The two range loops; each stops with the message it prints before \<^verbatim>\<open>raise Error\<close>.\<close>

fun lint_array_numbers :: "int list \<Rightarrow> string option" where
  "lint_array_numbers [] = None"
| "lint_array_numbers (v # list_array_numbers) =
     (if v \<ge> MAX_NUMBER_OF_ARRAYS \<or> v < 0
      then Some (''Array Numbers '' @ red ''FAILED: OUT OF RANGE OR TOO MANY ARRAYS CONNECTED'')
      else lint_array_numbers list_array_numbers)"

fun lint_motor_numbers :: "int list \<Rightarrow> string option" where
  "lint_motor_numbers [] = None"
| "lint_motor_numbers (v # list_motor_numbers) =
     (if v > MAX_NUMBER_OF_MOTORS \<or> v < 1
      then Some (''Motor Numbers '' @ red ''FAILED: OUT OF RANGE'')
      else lint_motor_numbers list_motor_numbers)"

text \<open>The lines printed, and whether \<^verbatim>\<open>Error\<close> was raised.
  \<^verbatim>\<open>len(set(list_array_numbers))\<close> is the number of distinct array numbers.\<close>

definition lint_serial_port_values :: "port list \<Rightarrow> string list \<times> (error + unit)" where
  "lint_serial_port_values serial_ports =
     (let list_array_numbers = map array_number serial_ports;
          list_motor_numbers = map motors serial_ports;
          checking = CHR 0x0A # ''Checking Array and Motor Numbers''
      in if length list_array_numbers \<noteq> length (remdups list_array_numbers)
         then ([checking, ''Array Numbers '' @ red ''FAILED: DUPLICATES''], Inl Error)
         else (case lint_array_numbers list_array_numbers of
                 Some message \<Rightarrow> ([checking, message], Inl Error)
               | None \<Rightarrow>
                   (case lint_motor_numbers list_motor_numbers of
                      Some message \<Rightarrow> ([checking, message], Inl Error)
                    | None \<Rightarrow>
                        ([checking, ''Array Numbers '' @ green ''LINTED'',
                          ''Motor Numbers '' @ green ''LINTED''], Inr ()))))"

section \<open>Framed channel: \<^verbatim>\<open>recieve_from_arduino\<close>\<close>

text \<open>
  A call that reads a port either returns a value, raises, or never returns:
  \<^verbatim>\<open>read()\<close> on a port opened without a timeout waits for the next byte, so a loop that
  reads past the last byte that ever arrives blocks. An exception leaves the bytes after
  the last one read on the port; \<open>Raises\<close> carries them.
\<close>

datatype 'a outcome = Returns 'a | Raises error string | Blocks

text \<open>\<^verbatim>\<open>recieve_char.decode("utf-8")\<close> of the single byte \<^verbatim>\<open>read()\<close> returned: a byte
  below 128 is the ASCII character, any other byte alone is not valid UTF-8.\<close>

definition decode :: "char \<Rightarrow> error + char" where
  "decode b = (if (of_char b :: nat) < 128 then Inr b else Inl UnicodeDecodeError)"

text \<open>The first \<^verbatim>\<open>read()\<close> and the loop \<^verbatim>\<open>while ord(recieve_char) != START_MARKER\<close>:
  from the bytes still to arrive to those left once the start marker has been read.\<close>

fun wait_for_start :: "string \<Rightarrow> string outcome" where
  "wait_for_start [] = Blocks"
| "wait_for_start (b # stream) =
     (case decode b of
        Inl e \<Rightarrow> Raises e stream
      | Inr recieve_char \<Rightarrow>
          (if of_char recieve_char \<noteq> START_MARKER then wait_for_start stream
           else Returns stream))"

text \<open>The loop \<^verbatim>\<open>while ord(recieve_char) != END_MARKER\<close>, from the \<^verbatim>\<open>read()\<close> at the end
  of its body: the character read is tested, and appended unless it is a start marker.\<close>

fun save_until_end :: "string \<Rightarrow> string \<Rightarrow> (string \<times> string) outcome" where
  "save_until_end recieve_string [] = Blocks"
| "save_until_end recieve_string (b # stream) =
     (case decode b of
        Inl e \<Rightarrow> Raises e stream
      | Inr recieve_char \<Rightarrow>
          (if of_char recieve_char \<noteq> END_MARKER then
             (if of_char recieve_char \<noteq> START_MARKER
              then save_until_end (recieve_string @ [recieve_char]) stream
              else save_until_end recieve_string stream)
           else Returns (recieve_string, stream)))"

text \<open>The message, and the bytes that are still to be read after it.\<close>

definition recieve_from_arduino :: "string \<Rightarrow> (string \<times> string) outcome" where
  "recieve_from_arduino stream =
     (case wait_for_start stream of
        Returns stream' \<Rightarrow> save_until_end [] stream'
      | Raises e stream' \<Rightarrow> Raises e stream'
      | Blocks \<Rightarrow> Blocks)"

section \<open>Handshake: \<^verbatim>\<open>wait_for_arduino_connection\<close>\<close>

text \<open>\<^verbatim>\<open>s.find(sub)\<close>: the lowest index where \<^verbatim>\<open>sub\<close> starts in \<^verbatim>\<open>s\<close>, or -1.\<close>

fun find_from :: "string \<Rightarrow> string \<Rightarrow> nat \<Rightarrow> int" where
  "find_from sub [] i = (if sub = [] then int i else - 1)"
| "find_from sub (c # s) i =
     (if take (length sub) (c # s) = sub then int i else find_from sub s (Suc i))"

definition py_find :: "string \<Rightarrow> string \<Rightarrow> int" where
  "py_find s sub = find_from sub s 0"

text \<open>\<^verbatim>\<open>s.split()\<close>: the maximal runs of characters that are not whitespace. The ASCII
  characters \<^verbatim>\<open>str.isspace\<close> accepts are 9 to 13, 28 to 31 and the blank.\<close>

definition isspace :: "char \<Rightarrow> bool" where
  "isspace c = ((of_char c :: nat) \<in> {9, 10, 11, 12, 13, 28, 29, 30, 31, 32})"

fun split_ws :: "string \<Rightarrow> string \<Rightarrow> string list" where
  "split_ws word [] = (if word = [] then [] else [word])"
| "split_ws word (c # cs) =
     (if isspace c then (if word = [] then split_ws [] cs else word # split_ws [] cs)
      else split_ws (word @ [c]) cs)"

definition py_split :: "string \<Rightarrow> string list" where
  "py_split s = split_ws [] s"

text \<open>\<^verbatim>\<open>s.isdigit()\<close> on ASCII text: not empty, and every character one of 0 to 9.\<close>

definition is_digit :: "char \<Rightarrow> bool" where
  "is_digit c = (48 \<le> (of_char c :: nat) \<and> (of_char c :: nat) \<le> 57)"

definition isdigit :: "string \<Rightarrow> bool" where
  "isdigit s = (s \<noteq> [] \<and> list_all is_digit s)"

text \<open>\<^verbatim>\<open>int(s)\<close> for a string of decimal digits.\<close>

definition py_int :: "string \<Rightarrow> int" where
  "py_int s = foldl (\<lambda>n c. 10 * n + (int (of_char c) - 48)) 0 s"

text \<open>\<^verbatim>\<open>[int(i) for i in msg.split() if i.isdigit()]\<close>\<close>

definition array_info_of :: "string \<Rightarrow> int list" where
  "array_info_of msg = map py_int (filter isdigit (py_split msg))"

lemma wait_for_start_shorter:
  "wait_for_start stream = Returns stream' \<Longrightarrow> length stream' < length stream"
  by (induction stream) (auto split: sum.splits if_splits)

lemma save_until_end_shorter:
  "save_until_end recieve_string stream = Returns (msg, stream') \<Longrightarrow> length stream' < length stream"
proof (induction stream arbitrary: recieve_string)
  case Nil
  then show ?case by simp
next
  case (Cons b stream)
  from Cons.prems obtain r where
    "save_until_end r stream = Returns (msg, stream') \<or> stream' = stream"
    by (auto split: sum.splits if_splits)
  then show ?case
    using Cons.IH by (auto intro: less_SucI)
qed

lemma recieve_from_arduino_shorter:
  "recieve_from_arduino stream = Returns (msg, stream') \<Longrightarrow> length stream' < length stream"
  by (auto simp: recieve_from_arduino_def split: outcome.splits
      dest!: wait_for_start_shorter save_until_end_shorter)

text \<open>
  The body of \<^verbatim>\<open>wait_for_arduino_connection_execute\<close>: messages are read until one holds
  the readiness phrase. \<^verbatim>\<open>inWaiting() == 0\<close> is polled until a byte is there, which never
  ends when no byte arrives any more.
\<close>

function wait_for_ready :: "string \<Rightarrow> string \<Rightarrow> (int list \<times> string) outcome" where
  "wait_for_ready msg stream =
     (if py_find msg ''Arduino is ready'' = - 1 then
        (if stream = [] then Blocks
         else (case recieve_from_arduino stream of
                 Returns (msg', stream') \<Rightarrow> wait_for_ready msg' stream'
               | Raises e stream' \<Rightarrow> Raises e stream'
               | Blocks \<Rightarrow> Blocks))
      else Returns (array_info_of msg, stream))"
  by pat_completeness auto
termination
  by (relation "measure (\<lambda>(msg, stream). length stream)")
    (auto dest: recieve_from_arduino_shorter)

declare wait_for_ready.simps [simp del]

text \<open>\<^verbatim>\<open>@timeout_decorator.timeout(10, use_signals=False)\<close>: a call that has not returned
  at the ceiling raises \<^verbatim>\<open>TimeoutError\<close>.\<close>

definition wait_for_arduino_connection_execute :: "string \<Rightarrow> (int list \<times> string) outcome" where
  "wait_for_arduino_connection_execute stream =
     (case wait_for_ready [] stream of
        Blocks \<Rightarrow> Raises TimeoutError []
      | r \<Rightarrow> r)"

section \<open>Orchestrator: \<^verbatim>\<open>execute_commands\<close> and \<^verbatim>\<open>move_arrays\<close>\<close>

text \<open>
  \<^verbatim>\<open>move_arrays_execute\<close> on row \<open>port\<close> of \<^verbatim>\<open>serial_ports\<close>: the bytes it writes to the
  port, the lines it writes to the terminal, the row as it leaves it, and the reply or the
  exception. It writes the command, polls \<^verbatim>\<open>inWaiting()\<close> and reads one message; under its
  decorator a call that would not return raises \<^verbatim>\<open>TimeoutError\<close>.
\<close>

definition move_arrays_execute ::
    "port list \<Rightarrow> string \<Rightarrow> nat \<Rightarrow> string \<times> string list \<times> port option \<times> (error + string)" where
  "move_arrays_execute serial_ports parce_text port =
     (case py_index serial_ports (int port) of
        Inl e \<Rightarrow> ([], [], None, Inl e)
      | Inr p \<Rightarrow>
          (case connection p of
             Close_method s \<Rightarrow> ([], [], Some p, Inl AttributeError)
           | Serial s \<Rightarrow>
               (let sent = ''-> -> Array: '' @ py_str (int port) @ '' '' @ green ''SENT'' in
                if incoming s = [] then (parce_text, [sent], Some p, Inl TimeoutError)
                else
                  (case recieve_from_arduino (incoming s) of
                     Returns (data_recieved, stream) \<Rightarrow>
                       (parce_text,
                        [sent, ''<- <- Array: '' @ py_str (int port) @ '' '' @ data_recieved],
                        Some (p\<lparr>connection := Serial (s\<lparr>incoming := stream\<rparr>)\<rparr>),
                        Inr data_recieved)
                   | Raises e stream \<Rightarrow>
                       (parce_text, [sent],
                        Some (p\<lparr>connection := Serial (s\<lparr>incoming := stream\<rparr>)\<rparr>), Inl e)
                   | Blocks \<Rightarrow>
                       (parce_text, [sent],
                        Some (p\<lparr>connection := Serial (s\<lparr>incoming := []\<rparr>)\<rparr>),
                        Inl TimeoutError)))))"

text \<open>How a thread ends: with the reply, by the timeout \<^verbatim>\<open>move_arrays\<close> catches and
  reports, or by an exception it does not catch.\<close>

datatype ending = Replied string | Timed_out | Died error

record run =
  sent_bytes :: string
  spinner_lines :: "string list"
  port_after :: "port option"
  ending :: ending

definition move_arrays :: "port list \<Rightarrow> string \<Rightarrow> nat \<Rightarrow> run" where
  "move_arrays serial_ports parce_text port =
     (case move_arrays_execute serial_ports parce_text port of
        (bytes, written, p, Inr data_recieved) \<Rightarrow>
          \<lparr>sent_bytes = bytes, spinner_lines = written, port_after = p,
           ending = Replied data_recieved\<rparr>
      | (bytes, written, p, Inl e) \<Rightarrow>
          (if e = TimeoutError
           then \<lparr>sent_bytes = bytes,
                 spinner_lines = written @ [''== == Array: '' @ py_str (int port) @ '' ''
                                             @ red ''EXECUTION FAILED TIMEOUT''],
                 port_after = p, ending = Timed_out\<rparr>
           else \<lparr>sent_bytes = bytes, spinner_lines = written, port_after = p,
                 ending = Died e\<rparr>))"

text \<open>A thread is known by the arguments \<^verbatim>\<open>move_arrays\<close> is started with: the text to send
  and the index of the row of \<^verbatim>\<open>serial_ports\<close> to send it on.\<close>

record worker =
  parce_string :: string
  port_index :: nat

text \<open>
  The loop that creates and starts the threads. \<^verbatim>\<open>threads\<close> has one slot per row of
  \<^verbatim>\<open>serial_ports\<close>; the loop runs over the pieces of the command string, and the
  assignment \<^verbatim>\<open>threads[count] = ...\<close> raises \<^verbatim>\<open>IndexError\<close> past the last slot. The
  threads started before that keep running: the list is returned with the exception.
\<close>

fun create_threads ::
    "string list \<Rightarrow> nat \<Rightarrow> worker option list \<Rightarrow> worker option list \<times> (error + unit)" where
  "create_threads [] count threads = (threads, Inr ())"
| "create_threads (piece # parse_text) count threads =
     (if count < length threads
      then create_threads parse_text (Suc count)
             (threads[count := Some \<lparr>parce_string = piece, port_index = count\<rparr>])
      else (threads, Inl IndexError))"

text \<open>The loop \<^verbatim>\<open>threads[count].join()\<close> over the pieces: the workers whose end has been
  waited for, in order. \<^verbatim>\<open>None\<close> has no \<^verbatim>\<open>join\<close>.\<close>

fun join_threads ::
    "string list \<Rightarrow> nat \<Rightarrow> worker option list \<Rightarrow> worker list \<times> (error + unit)" where
  "join_threads [] count threads = ([], Inr ())"
| "join_threads (piece # parse_text) count threads =
     (case py_index threads (int count) of
        Inl e \<Rightarrow> ([], Inl e)
      | Inr None \<Rightarrow> ([], Inl AttributeError)
      | Inr (Some w) \<Rightarrow>
          (case join_threads parse_text (Suc count) threads of
             (ws, r) \<Rightarrow> (w # ws, r)))"

text \<open>The threads that were started: the slots of \<^verbatim>\<open>threads\<close> that hold one.\<close>

definition started :: "worker option list \<Rightarrow> worker list" where
  "started threads = concat (map (\<lambda>t. case t of None \<Rightarrow> [] | Some w \<Rightarrow> [w]) threads)"

text \<open>
  One call of \<^verbatim>\<open>execute_commands\<close>: the list \<^verbatim>\<open>threads\<close> as the call leaves it, the
  workers it has joined, what every started worker does (each on its own row, so they are
  run here one by one), and whether the call returned or raised.
\<close>

record execution =
  thread_slots :: "worker option list"
  joined_workers :: "worker list"
  worker_runs :: "run list"
  raised :: "error + unit"

definition execute_commands :: "port list \<Rightarrow> string \<Rightarrow> execution" where
  "execute_commands serial_ports command_string_execute =
     (let parse_text = py_split_sep command_string_execute CHR '';'' in
      case create_threads parse_text 0 (replicate (length serial_ports) None) of
        (threads, Inl e) \<Rightarrow>
          \<lparr>thread_slots = threads, joined_workers = [],
           worker_runs = map (\<lambda>w. move_arrays serial_ports (parce_string w) (port_index w))
                           (started threads),
           raised = Inl e\<rparr>
      | (threads, Inr u) \<Rightarrow>
          (case join_threads parse_text 0 threads of
             (ws, r) \<Rightarrow>
               \<lparr>thread_slots = threads, joined_workers = ws,
                worker_runs = map (\<lambda>w. move_arrays serial_ports (parce_string w) (port_index w))
                                (started threads),
                raised = r\<rparr>))"

section \<open>Connecting: \<^verbatim>\<open>find_arduinos\<close> to \<^verbatim>\<open>close_connections\<close>\<close>

text \<open>
  A row of \<^verbatim>\<open>serial_ports\<close> changes shape as the connection proceeds: the address
  \<^verbatim>\<open>find_arduinos\<close> found, then \<^verbatim>\<open>[address, pyserial object]\<close> from \<^verbatim>\<open>open_ports\<close>, then
  the four-element row of a connected array.
\<close>

datatype row = Address string | Opened string slot | Connected port

text \<open>\<^verbatim>\<open>serial_ports[count][0]\<close>: the address, or the first character of a row that is
  still a string.\<close>

fun row_first :: "row \<Rightarrow> string" where
  "row_first (Address a) = take 1 a"
| "row_first (Opened a c) = a"
| "row_first (Connected p) = address p"

text \<open>The pyserial object in \<^verbatim>\<open>serial_ports[count][1]\<close>, for a call of one of its methods.
  Slot 1 of a string is a character and has no such method, as a bound method has none.\<close>

fun row_serial :: "row \<Rightarrow> error + serial" where
  "row_serial (Address a) = (if length a < 2 then Inl IndexError else Inl AttributeError)"
| "row_serial (Opened a (Serial s)) = Inr s"
| "row_serial (Opened a (Close_method s)) = Inl AttributeError"
| "row_serial (Connected p) =
     (case connection p of Serial s \<Rightarrow> Inr s | Close_method s \<Rightarrow> Inl AttributeError)"

fun set_slot :: "row \<Rightarrow> slot \<Rightarrow> row" where
  "set_slot (Address a) c = Address a"
| "set_slot (Opened a c') c = Opened a c"
| "set_slot (Connected p) c = Connected (p\<lparr>connection := c\<rparr>)"

text \<open>\<^verbatim>\<open>find_arduinos\<close>, from what \<^verbatim>\<open>ls\<close> gave: its output lines, or nothing when it
  failed.\<close>

definition find_arduinos :: "string list option \<Rightarrow> error + string list" where
  "find_arduinos ls =
     (case ls of
        None \<Rightarrow> Inl Error
      | Some serial_shell_capture_list \<Rightarrow>
          (if int (length serial_shell_capture_list) > MAX_NUMBER_OF_ARRAYS then Inl Error
           else Inr serial_shell_capture_list))"

text \<open>
  \<^verbatim>\<open>open_ports\<close> replaces the rows in place, one by one, and stops at the first port that
  does not open: the list it leaves holds the rows opened so far and the addresses not yet
  reached. \<open>usb a\<close> is \<open>None\<close> when \<^verbatim>\<open>serial.Serial(a, BAUD_RATE)\<close> fails, and else the
  bytes the device at that address sends.
\<close>

fun open_ports :: "(string \<Rightarrow> string option) \<Rightarrow> string list \<Rightarrow> row list \<times> (error + unit)" where
  "open_ports usb [] = ([], Inr ())"
| "open_ports usb (a # serial_ports) =
     (case usb a of
        None \<Rightarrow> (map Address (a # serial_ports), Inl Error)
      | Some bytes \<Rightarrow>
          (case open_ports usb serial_ports of
             (rows, r) \<Rightarrow> (Opened a (Serial \<lparr>is_open = True, incoming = bytes\<rparr>) # rows, r)))"

text \<open>
  One handshake thread: the line it writes, the row it leaves in \<^verbatim>\<open>serial_ports[port]\<close>,
  and \<^verbatim>\<open>results[port]\<close>, which stays \<^verbatim>\<open>None\<close> when the thread ends by an exception the
  function does not catch.
\<close>

definition wait_for_arduino_connection ::
    "nat \<Rightarrow> row \<Rightarrow> string list \<times> row \<times> (bool \<times> row) option" where
  "wait_for_arduino_connection port r =
     (let negative = ''Serial Port '' @ py_str (int port) @ '' ''
                     @ red ''FAILED: NEGATIVE ARRAY NUMBER OR MOTOR NUMBER PASSED''
      in case row_serial r of
        Inl e \<Rightarrow> (if e = IndexError then ([negative], r, Some (True, r)) else ([], r, None))
      | Inr s \<Rightarrow>
          (case wait_for_arduino_connection_execute (incoming s) of
             Returns (array_info, stream) \<Rightarrow>
               (let r' = set_slot r (Serial (s\<lparr>incoming := stream\<rparr>)) in
                case py_index array_info 0 of
                  Inl e \<Rightarrow> ([negative], r', Some (True, r'))
                | Inr array \<Rightarrow>
                    (case py_index array_info 1 of
                       Inl e \<Rightarrow> ([negative], r', Some (True, r'))
                     | Inr motor_count \<Rightarrow>
                         (let r'' = Connected \<lparr>address = row_first r,
                                      connection = Serial (s\<lparr>incoming := stream\<rparr>),
                                      array_number = array, motors = motor_count\<rparr>
                          in ([''Serial Port '' @ py_str (int port) @ '' '' @ green ''READY''],
                              r'', Some (False, r'')))))
           | Raises e stream \<Rightarrow>
               (let r' = set_slot r (Serial (s\<lparr>incoming := stream\<rparr>)) in
                if e = TimeoutError
                then ([''Serial Port '' @ py_str (int port) @ '' ''
                       @ red ''FAILED: WAITING FOR MESSAGE TIMEOUT''], r', Some (True, r'))
                else ([], r', None))
           | Blocks \<Rightarrow> ([], r, None)))"

text \<open>The threads work on different rows, so they are run here one after the other.\<close>

fun connection_threads ::
    "nat \<Rightarrow> row list \<Rightarrow> (string list \<times> row \<times> (bool \<times> row) option) list" where
  "connection_threads count [] = []"
| "connection_threads count (r # serial_ports) =
     wait_for_arduino_connection count r # connection_threads (Suc count) serial_ports"

text \<open>The loop over \<^verbatim>\<open>results\<close>: \<^verbatim>\<open>row[0]\<close> of a result that is \<^verbatim>\<open>None\<close> raises
  \<^verbatim>\<open>TypeError\<close>, a set error flag raises \<^verbatim>\<open>Error\<close>.\<close>

fun read_results :: "(bool \<times> row) option list \<Rightarrow> error + unit" where
  "read_results [] = Inr ()"
| "read_results (None # results) = Inl TypeError"
| "read_results (Some (err, r) # results) = (if err then Inl Error else read_results results)"

definition connect_to_arrays :: "row list \<Rightarrow> row list \<times> (error + unit)" where
  "connect_to_arrays serial_ports =
     (let threads = connection_threads 0 serial_ports
      in (map (\<lambda>(lines, r, result). r) threads,
          read_results (map (\<lambda>(lines, r, result). result) threads)))"

text \<open>
  \<^verbatim>\<open>close_connections\<close>, row by row: the statement
  \<^verbatim>\<open>serial_ports[count][1] = serial_ports[count][1].close\<close> stores the bound method in the
  row. \<^verbatim>\<open>AttributeError\<close> is caught and reported; an \<^verbatim>\<open>IndexError\<close> is not caught.
\<close>

definition close_connection :: "nat \<Rightarrow> row \<Rightarrow> error + string \<times> row" where
  "close_connection count r =
     (case row_serial r of
        Inr s \<Rightarrow>
          Inr (''Serial port '' @ py_str (int count) @ '' '' @ row_first r @ '' ''
               @ green ''CLOSED'', set_slot r (Close_method s))
      | Inl e \<Rightarrow>
          (if e = AttributeError
           then Inr (''Serial port '' @ py_str (int count) @ '' '' @ row_first r @ '' ''
                     @ red ''FAILED'', r)
           else Inl e))"

fun close_from :: "nat \<Rightarrow> row list \<Rightarrow> string list \<times> row list \<times> (error + unit)" where
  "close_from count [] = ([], [], Inr ())"
| "close_from count (r # serial_ports) =
     (case close_connection count r of
        Inl e \<Rightarrow> ([], r # serial_ports, Inl e)
      | Inr (line, r') \<Rightarrow>
          (case close_from (Suc count) serial_ports of
             (lines, rows, res) \<Rightarrow> (line # lines, r' # rows, res)))"

definition close_connections :: "row list \<Rightarrow> string list \<times> row list \<times> (error + unit)" where
  "close_connections serial_ports = close_from 0 serial_ports"

text \<open>The ports of connected rows: what \<^verbatim>\<open>lint_serial_port_values\<close> reads once
  \<^verbatim>\<open>connect_to_arrays\<close> has returned, when every row is a connected one.\<close>

fun ports_of :: "row list \<Rightarrow> port list" where
  "ports_of [] = []"
| "ports_of (Connected p # rows) = p # ports_of rows"
| "ports_of (r # rows) = ports_of rows"

text \<open>
  The handler \<^verbatim>\<open>except Error\<close> of the first loop of \<^verbatim>\<open>main\<close>: the ports are closed when
  there are rows, and the loop starts again (\<open>Inl Error\<close>). Any other exception leaves
  \<^verbatim>\<open>main\<close>.
\<close>

definition except_Error :: "error \<Rightarrow> row list \<Rightarrow> row list \<times> (error + unit)" where
  "except_Error e serial_ports =
     (if e = Error then
        (if length serial_ports \<noteq> 0 then
           (case close_connections serial_ports of
              (lines, rows, Inl e') \<Rightarrow> (rows, Inl e')
            | (lines, rows, Inr u) \<Rightarrow> (rows, Inl Error))
         else (serial_ports, Inl Error))
      else (serial_ports, Inl e))"

text \<open>
  One round of the first loop of \<^verbatim>\<open>main\<close>, after the operator pressed Enter:
  \<open>previous\<close> is what \<^verbatim>\<open>serial_ports\<close> held before. The result is the new value of
  \<^verbatim>\<open>serial_ports\<close> with \<open>Inr ()\<close> when the loop is left through \<^verbatim>\<open>break\<close>.
\<close>

definition main_connect ::
    "string list option \<Rightarrow> (string \<Rightarrow> string option) \<Rightarrow> row list \<Rightarrow> row list \<times> (error + unit)" where
  "main_connect ls usb previous =
     (case find_arduinos ls of
        Inl e \<Rightarrow> except_Error e previous
      | Inr found \<Rightarrow>
          (case open_ports usb found of
             (rows, Inl e) \<Rightarrow> except_Error e rows
           | (rows, Inr u) \<Rightarrow>
               (case connect_to_arrays rows of
                  (rows', Inl e) \<Rightarrow> except_Error e rows'
                | (rows', Inr u') \<Rightarrow>
                    (case snd (lint_serial_port_values (ports_of rows')) of
                       Inl e \<Rightarrow> except_Error e rows'
                     | Inr u'' \<Rightarrow> (rows', Inr ())))))"

section \<open>The specification's side of the claims\<close>

text \<open>
  The instruction of the specification's data model and the wire text encoding of its
  external interfaces, in the specification's words: a device's instructions are \<^verbatim>\<open><\<close>,
  the comma-joined \<^verbatim>\<open>Direction,Magnitude\<close> pairs and \<^verbatim>\<open>>\<close>; a batch is the devices joined
  by \<^verbatim>\<open>;\<close>. The command strings of the source are compared with these.
\<close>

datatype direction = Up | Down | None_dir

record instruction =
  direction :: direction
  magnitude :: int

fun direction_text :: "direction \<Rightarrow> string" where
  "direction_text Up = ''Up''"
| "direction_text Down = ''Down''"
| "direction_text None_dir = ''None''"

definition instruction_text :: "instruction \<Rightarrow> string" where
  "instruction_text i = direction_text (direction i) @ '','' @ py_str (magnitude i)"

text \<open>\<^verbatim>\<open>sep.join(xs)\<close>\<close>

fun join :: "string \<Rightarrow> string list \<Rightarrow> string" where
  "join sep [] = []"
| "join sep [x] = x"
| "join sep (x # y # ys) = x @ sep @ join sep (y # ys)"

definition device_text :: "instruction list \<Rightarrow> string" where
  "device_text instructions = ''<'' @ join '','' (map instruction_text instructions) @ ''>''"

definition batch_text :: "instruction list list \<Rightarrow> string" where
  "batch_text batch = join '';'' (map device_text batch)"

text \<open>
  A position grid has \<open>MAX_NUMBER_OF_ARRAYS\<close> rows of \<open>MAX_NUMBER_OF_MOTORS\<close> cells, the
  shape \<^verbatim>\<open>lint_csv_file\<close> gives a file. A connected device is a row whose numbers
  \<^verbatim>\<open>lint_serial_port_values\<close> lets pass.
\<close>

definition position_grid :: "grid \<Rightarrow> bool" where
  "position_grid g \<longleftrightarrow>
     int (length g) = MAX_NUMBER_OF_ARRAYS
     \<and> list_all (\<lambda>row. int (length row) = MAX_NUMBER_OF_MOTORS) g"

definition connected_device :: "port \<Rightarrow> bool" where
  "connected_device d \<longleftrightarrow>
     0 \<le> array_number d \<and> array_number d < MAX_NUMBER_OF_ARRAYS
     \<and> 1 \<le> motors d \<and> motors d \<le> MAX_NUMBER_OF_MOTORS"

text \<open>The diff of the specification: the instruction for one motor from its current and
  desired cell, and the instructions of one device, one per motor slot it owns.\<close>

definition diff_instruction :: "int \<Rightarrow> int \<Rightarrow> instruction" where
  "diff_instruction current desired =
     \<lparr>direction = (if current - desired < 0 then Down
                   else if current - desired > 0 then Up else None_dir),
      magnitude = \<bar>current - desired\<bar>\<rparr>"

definition diff_row :: "grid \<Rightarrow> grid \<Rightarrow> port \<Rightarrow> instruction list" where
  "diff_row desired current d =
     map (\<lambda>s. diff_instruction (current ! nat (array_number d) ! s)
                 (desired ! nat (array_number d) ! s))
       [0..<nat (motors d)]"

text \<open>The workers for the pieces of a command string, numbered from \<open>count\<close>.\<close>

fun workers_from :: "nat \<Rightarrow> string list \<Rightarrow> worker list" where
  "workers_from count [] = []"
| "workers_from count (piece # parse_text) =
     \<lparr>parce_string = piece, port_index = count\<rparr> # workers_from (Suc count) parse_text"

text \<open>The integers of a handshake payload in the specification's words: every maximal run
  of decimal digits, in order of appearance.\<close>

fun digit_runs_from :: "string \<Rightarrow> string \<Rightarrow> int list" where
  "digit_runs_from run [] = (if run = [] then [] else [py_int run])"
| "digit_runs_from run (c # cs) =
     (if is_digit c then digit_runs_from (run @ [c]) cs
      else if run = [] then digit_runs_from [] cs
      else py_int run # digit_runs_from [] cs)"

definition spec_digit_runs :: "string \<Rightarrow> int list" where
  "spec_digit_runs payload = digit_runs_from [] payload"

text \<open>Two pairs of grids and two connected devices, for the concrete instances below. The
  primed grids agree with the others on the first two cells of row 0 and differ elsewhere.\<close>

definition example_desired :: grid where
  "example_desired =
     [[3, 0, 0, 0, 0, 0, 0, 0, 0, 0], [0, 0, 0, 0, 0, 0, 0, 0, 0, 0],
      [4, 7, 1, 0, 0, 0, 0, 0, 0, 0], [0, 0, 0, 0, 0, 0, 0, 0, 0, 0]]"

definition example_current :: grid where
  "example_current =
     [[5, 0, 0, 0, 0, 0, 0, 0, 0, 0], [0, 0, 0, 0, 0, 0, 0, 0, 0, 0],
      [4, 2, 1, 0, 0, 0, 0, 0, 0, 0], [0, 0, 0, 0, 0, 0, 0, 0, 0, 0]]"

definition example_desired' :: grid where
  "example_desired' =
     [[3, 0, 9, 0, 0, 8, 0, 0, 0, 0], [1, 2, 3, 4, 5, 6, 7, 8, 9, 10],
      [4, 7, 1, 0, 0, 0, 0, 0, 0, 0], [0, 0, 0, 0, 0, 0, 0, 0, 0, 6]]"

definition example_current' :: grid where
  "example_current' =
     [[5, 0, 0, 0, 0, 0, 0, 0, 0, 2], [10, 9, 8, 7, 6, 5, 4, 3, 2, 1],
      [0, 0, 0, 0, 0, 0, 0, 0, 0, 0], [0, 0, 0, 0, 0, 0, 0, 0, 0, 0]]"

definition example_port0 :: port where
  "example_port0 = \<lparr>address = ''/dev/ttyUSB0'',
     connection = Serial \<lparr>is_open = True, incoming = []\<rparr>, array_number = 0, motors = 2\<rparr>"

definition example_port1 :: port where
  "example_port1 = \<lparr>address = ''/dev/ttyUSB1'',
     connection = Serial \<lparr>is_open = True, incoming = []\<rparr>, array_number = 2, motors = 3\<rparr>"

text \<open>Three devices for the orchestrator: one that sends nothing, one that replies, and
  one whose reply comes after a byte that is not ASCII.\<close>

definition example_silent :: port where
  "example_silent = \<lparr>address = ''/dev/ttyUSB0'',
     connection = Serial \<lparr>is_open = True, incoming = []\<rparr>, array_number = 0, motors = 1\<rparr>"

definition example_replying :: port where
  "example_replying = \<lparr>address = ''/dev/ttyUSB1'',
     connection = Serial \<lparr>is_open = True, incoming = ''<done>''\<rparr>, array_number = 1, motors = 1\<rparr>"

definition example_garbled :: port where
  "example_garbled = \<lparr>address = ''/dev/ttyUSB2'',
     connection = Serial \<lparr>is_open = True, incoming = CHR 0xFF # ''<done>''\<rparr>,
     array_number = 2, motors = 1\<rparr>"

lemmas example_defs = example_desired_def example_current_def example_desired'_def
  example_current'_def example_port0_def example_port1_def

section \<open>The scenario of the command diff\<close>

text \<open>
  Claim C2, as amended. With the desired row of array 0 being \<open>[3,0,0,...]\<close>, the current
  row \<open>[5,0,0,...]\<close> and a device for array 0 that has 2 motors, the difference current
  minus desired of motor 0 is 2, which is positive, so the instruction text for that device
  is \<^verbatim>\<open><Up,2,None,0>\<close>: it is the whole command when the device is the only one, and
  it is what the loop body appends (followed by the separator) to any command string.
\<close>

theorem csv_scenario:
  "array_number d = 0 \<Longrightarrow> motors d = 2 \<Longrightarrow>
   commands_from_csv ([3, 0, 0, 0, 0, 0, 0, 0, 0, 0] # desired_rest)
     ([5, 0, 0, 0, 0, 0, 0, 0, 0, 0] # current_rest) [d] = Inr ''<Up,2,None,0>''
   \<and> csv_array ([3, 0, 0, 0, 0, 0, 0, 0, 0, 0] # desired_rest)
     ([5, 0, 0, 0, 0, 0, 0, 0, 0, 0] # current_rest) d command_string
       = Inr (command_string @ ''<Up,2,None,0>'' @ '';'')"
  by (simp add: commands_from_csv_def csv_array_def py_index_def py_str_def str_nat.simps
      digit_char_def butlast_append)

theorem csv_scenario_witness:
  "array_number \<lparr>address = ''/dev/ttyUSB0'',
       connection = Serial \<lparr>is_open = True, incoming = []\<rparr>,
       array_number = 0, motors = 2\<rparr> = 0
   \<and> motors \<lparr>address = ''/dev/ttyUSB0'',
       connection = Serial \<lparr>is_open = True, incoming = []\<rparr>,
       array_number = 0, motors = 2\<rparr> = 2
   \<and> commands_from_csv
     [[3, 0, 0, 0, 0, 0, 0, 0, 0, 0], [0, 0, 0, 0, 0, 0, 0, 0, 0, 0],
      [0, 0, 0, 0, 0, 0, 0, 0, 0, 0], [0, 0, 0, 0, 0, 0, 0, 0, 0, 0]]
     [[5, 0, 0, 0, 0, 0, 0, 0, 0, 0], [0, 0, 0, 0, 0, 0, 0, 0, 0, 0],
      [0, 0, 0, 0, 0, 0, 0, 0, 0, 0], [0, 0, 0, 0, 0, 0, 0, 0, 0, 0]]
     [\<lparr>address = ''/dev/ttyUSB0'', connection = Serial \<lparr>is_open = True, incoming = []\<rparr>,
       array_number = 0, motors = 2\<rparr>] = Inr ''<Up,2,None,0>''"
  using csv_scenario [of "\<lparr>address = ''/dev/ttyUSB0'',
       connection = Serial \<lparr>is_open = True, incoming = []\<rparr>,
       array_number = 0, motors = 2\<rparr>"]
  by simp

text \<open>Claim C2 as stated fails: on the scenario's input the command is not
  \<^verbatim>\<open><Down,2,None,0>\<close>.\<close>

theorem csv_scenario_not_Down:
  "commands_from_csv
     [[3, 0, 0, 0, 0, 0, 0, 0, 0, 0], [0, 0, 0, 0, 0, 0, 0, 0, 0, 0],
      [0, 0, 0, 0, 0, 0, 0, 0, 0, 0], [0, 0, 0, 0, 0, 0, 0, 0, 0, 0]]
     [[5, 0, 0, 0, 0, 0, 0, 0, 0, 0], [0, 0, 0, 0, 0, 0, 0, 0, 0, 0],
      [0, 0, 0, 0, 0, 0, 0, 0, 0, 0], [0, 0, 0, 0, 0, 0, 0, 0, 0, 0]]
     [\<lparr>address = ''/dev/ttyUSB0'', connection = Serial \<lparr>is_open = True, incoming = []\<rparr>,
       array_number = 0, motors = 2\<rparr>] \<noteq> Inr ''<Down,2,None,0>''"
  by (simp add: commands_from_csv_def csv_array_def py_index_def py_str_def str_nat.simps
      digit_char_def)

section \<open>The table the reset writes\<close>

text \<open>
  Claim C4. The reset builds one \<^verbatim>\<open>Up,100\<close> per motor of every device, and it rewrites
  the current-state file before it hands the command over. The table it writes has
  \<open>MAX_NUMBER_OF_MOTORS\<close> rows of \<open>MAX_NUMBER_OF_ARRAYS\<close> cells, 10 rows by 4 columns, where
  the claim (and \<^verbatim>\<open>lint_csv_file\<close>) have 4 rows by 10 columns.
\<close>

theorem reset_writes_transposed_table:
  "commands_from_reset
     [\<lparr>address = ''/dev/ttyUSB0'', connection = Serial \<lparr>is_open = True, incoming = []\<rparr>,
       array_number = 0, motors = 2\<rparr>]
   = [Write_current_state
        [[0, 0, 0, 0], [0, 0, 0, 0], [0, 0, 0, 0], [0, 0, 0, 0], [0, 0, 0, 0],
         [0, 0, 0, 0], [0, 0, 0, 0], [0, 0, 0, 0], [0, 0, 0, 0], [0, 0, 0, 0]],
      Print ''<Up,100,Up,100>'', Execute_commands ''<Up,100,Up,100>'']"
  by (simp add: commands_from_reset_def current_state_list_zero_def reset_command_def
      MAX_NUMBER_OF_MOTORS_def MAX_NUMBER_OF_ARRAYS_def eval_nat_numeral)

section \<open>Closing the ports after a failed connect\<close>

text \<open>
  Claim C7. One device is found and its port opens, but it sends nothing, so the handshake
  times out and \<^verbatim>\<open>connect_to_arrays\<close> raises \<^verbatim>\<open>Error\<close>. The handler runs
  \<^verbatim>\<open>close_connections\<close>, which stores the bound method \<^verbatim>\<open>close\<close> in the row without
  calling it: when the loop starts again the port is still open.
\<close>

theorem close_connections_leaves_port_open:
  "main_connect (Some [''/dev/ttyUSB0''])
     (\<lambda>a. if a = ''/dev/ttyUSB0'' then Some [] else None) []
   = ([Opened ''/dev/ttyUSB0'' (Close_method \<lparr>is_open = True, incoming = []\<rparr>)], Inl Error)"
  by (simp add: main_connect_def find_arduinos_def MAX_NUMBER_OF_ARRAYS_def
      connect_to_arrays_def wait_for_arduino_connection_def
      wait_for_arduino_connection_execute_def wait_for_ready.simps py_find_def
      except_Error_def close_connections_def close_connection_def Let_def)

section \<open>Registry validation\<close>

lemma lint_array_numbers_None:
  "lint_array_numbers xs = None \<longleftrightarrow> (\<forall>v \<in> set xs. 0 \<le> v \<and> v < MAX_NUMBER_OF_ARRAYS)"
  by (induction xs) auto

lemma lint_motor_numbers_None:
  "lint_motor_numbers xs = None \<longleftrightarrow> (\<forall>v \<in> set xs. 1 \<le> v \<and> v \<le> MAX_NUMBER_OF_MOTORS)"
  by (induction xs) auto

lemma lint_serial_port_values_outcome:
  "snd (lint_serial_port_values serial_ports) =
     (if distinct (map array_number serial_ports)
         \<and> (\<forall>p \<in> set serial_ports. 0 \<le> array_number p \<and> array_number p < MAX_NUMBER_OF_ARRAYS)
         \<and> (\<forall>p \<in> set serial_ports. 1 \<le> motors p \<and> motors p \<le> MAX_NUMBER_OF_MOTORS)
      then Inr () else Inl Error)"
proof -
  have d: "length (map array_number serial_ports) \<noteq> length (remdups (map array_number serial_ports))
      \<longleftrightarrow> \<not> distinct (map array_number serial_ports)"
    using length_remdups_eq [of "map array_number serial_ports"]
      remdups_id_iff_distinct [of "map array_number serial_ports"] by auto
  have a: "lint_array_numbers (map array_number serial_ports) = None
      \<longleftrightarrow> (\<forall>p \<in> set serial_ports. 0 \<le> array_number p \<and> array_number p < MAX_NUMBER_OF_ARRAYS)"
    by (simp add: lint_array_numbers_None)
  have m: "lint_motor_numbers (map motors serial_ports) = None
      \<longleftrightarrow> (\<forall>p \<in> set serial_ports. 1 \<le> motors p \<and> motors p \<le> MAX_NUMBER_OF_MOTORS)"
    by (simp add: lint_motor_numbers_None)
  show ?thesis
    unfolding lint_serial_port_values_def Let_def
    using d a m by (auto split: option.splits)
qed

text \<open>
  Claim C6. \<^verbatim>\<open>lint_serial_port_values\<close> raises \<^verbatim>\<open>Error\<close> exactly when two rows have the
  same array number, or an array number is outside \<open>[0, MAX_NUMBER_OF_ARRAYS)\<close>, or a number
  of motors is outside \<open>[1, MAX_NUMBER_OF_MOTORS]\<close>; otherwise it returns normally. It has no
  third outcome, and on failure it yields nothing but the exception. Two devices that both
  report array number 2 are rejected with the message for duplicates.
\<close>

theorem lint_serial_port_values_rejects:
  "(snd (lint_serial_port_values serial_ports) = Inl Error \<longleftrightarrow>
      \<not> distinct (map array_number serial_ports)
      \<or> (\<exists>p \<in> set serial_ports. array_number p < 0 \<or> MAX_NUMBER_OF_ARRAYS \<le> array_number p)
      \<or> (\<exists>p \<in> set serial_ports. motors p < 1 \<or> MAX_NUMBER_OF_MOTORS < motors p))
   \<and> (snd (lint_serial_port_values serial_ports) \<noteq> Inl Error \<longrightarrow>
        snd (lint_serial_port_values serial_ports) = Inr ())
   \<and> (array_number a = 2 \<and> array_number b = 2 \<longrightarrow>
        lint_serial_port_values [a, b] =
          ([CHR 0x0A # ''Checking Array and Motor Numbers'',
            ''Array Numbers '' @ red ''FAILED: DUPLICATES''], Inl Error))"
proof (intro conjI)
  show "snd (lint_serial_port_values serial_ports) = Inl Error \<longleftrightarrow>
      \<not> distinct (map array_number serial_ports)
      \<or> (\<exists>p \<in> set serial_ports. array_number p < 0 \<or> MAX_NUMBER_OF_ARRAYS \<le> array_number p)
      \<or> (\<exists>p \<in> set serial_ports. motors p < 1 \<or> MAX_NUMBER_OF_MOTORS < motors p)"
    unfolding lint_serial_port_values_outcome by (auto simp: not_le not_less)
  show "snd (lint_serial_port_values serial_ports) \<noteq> Inl Error \<longrightarrow>
        snd (lint_serial_port_values serial_ports) = Inr ()"
    unfolding lint_serial_port_values_outcome by simp
  show "array_number a = 2 \<and> array_number b = 2 \<longrightarrow>
        lint_serial_port_values [a, b] =
          ([CHR 0x0A # ''Checking Array and Motor Numbers'',
            ''Array Numbers '' @ red ''FAILED: DUPLICATES''], Inl Error)"
    by (simp add: lint_serial_port_values_def)
qed

theorem lint_serial_port_values_rejects_witness:
  "snd (lint_serial_port_values
     [\<lparr>address = ''/dev/ttyUSB0'', connection = Serial \<lparr>is_open = True, incoming = []\<rparr>,
       array_number = 2, motors = 3\<rparr>,
      \<lparr>address = ''/dev/ttyUSB1'', connection = Serial \<lparr>is_open = True, incoming = []\<rparr>,
       array_number = 2, motors = 5\<rparr>]) = Inl Error
   \<and> snd (lint_serial_port_values
     [\<lparr>address = ''/dev/ttyUSB0'', connection = Serial \<lparr>is_open = True, incoming = []\<rparr>,
       array_number = 0, motors = 3\<rparr>,
      \<lparr>address = ''/dev/ttyUSB1'', connection = Serial \<lparr>is_open = True, incoming = []\<rparr>,
       array_number = 2, motors = 10\<rparr>]) = Inr ()
   \<and> snd (lint_serial_port_values
     [\<lparr>address = ''/dev/ttyUSB0'', connection = Serial \<lparr>is_open = True, incoming = []\<rparr>,
       array_number = 4, motors = 3\<rparr>]) = Inl Error
   \<and> snd (lint_serial_port_values
     [\<lparr>address = ''/dev/ttyUSB0'', connection = Serial \<lparr>is_open = True, incoming = []\<rparr>,
       array_number = 3, motors = 0\<rparr>]) = Inl Error
   \<and> fst (lint_serial_port_values
     [\<lparr>address = ''/dev/ttyUSB0'', connection = Serial \<lparr>is_open = True, incoming = []\<rparr>,
       array_number = 2, motors = 3\<rparr>,
      \<lparr>address = ''/dev/ttyUSB1'', connection = Serial \<lparr>is_open = True, incoming = []\<rparr>,
       array_number = 2, motors = 5\<rparr>]) ! 1 = ''Array Numbers '' @ red ''FAILED: DUPLICATES''"
  using lint_serial_port_values_rejects [of
     "[\<lparr>address = ''/dev/ttyUSB0'', connection = Serial \<lparr>is_open = True, incoming = []\<rparr>,
       array_number = 2, motors = 3\<rparr>,
      \<lparr>address = ''/dev/ttyUSB1'', connection = Serial \<lparr>is_open = True, incoming = []\<rparr>,
       array_number = 2, motors = 5\<rparr>]"
     "\<lparr>address = ''/dev/ttyUSB0'', connection = Serial \<lparr>is_open = True, incoming = []\<rparr>,
       array_number = 2, motors = 3\<rparr>"
     "\<lparr>address = ''/dev/ttyUSB1'', connection = Serial \<lparr>is_open = True, incoming = []\<rparr>,
       array_number = 2, motors = 5\<rparr>"]
    lint_serial_port_values_rejects [of
     "[\<lparr>address = ''/dev/ttyUSB0'', connection = Serial \<lparr>is_open = True, incoming = []\<rparr>,
       array_number = 0, motors = 3\<rparr>,
      \<lparr>address = ''/dev/ttyUSB1'', connection = Serial \<lparr>is_open = True, incoming = []\<rparr>,
       array_number = 2, motors = 10\<rparr>]"]
    lint_serial_port_values_rejects [of
     "[\<lparr>address = ''/dev/ttyUSB0'', connection = Serial \<lparr>is_open = True, incoming = []\<rparr>,
       array_number = 4, motors = 3\<rparr>]"]
    lint_serial_port_values_rejects [of
     "[\<lparr>address = ''/dev/ttyUSB0'', connection = Serial \<lparr>is_open = True, incoming = []\<rparr>,
       array_number = 3, motors = 0\<rparr>]"]
  by (simp add: MAX_NUMBER_OF_ARRAYS_def MAX_NUMBER_OF_MOTORS_def)

section \<open>Framing\<close>

lemma is_START_MARKER: "(of_char c = (60::nat)) = (c = CHR ''<'')"
proof -
  have h: "(60::nat) = of_char CHR ''<''" by simp
  show ?thesis unfolding h by (rule of_char_eq_iff)
qed

lemma is_END_MARKER: "(of_char c = (62::nat)) = (c = CHR ''>'')"
proof -
  have h: "(62::nat) = of_char CHR ''>''" by simp
  show ?thesis unfolding h by (rule of_char_eq_iff)
qed

lemma wait_for_start_noise:
  "\<forall>b \<in> set noise. (of_char b :: nat) < 128 \<and> b \<noteq> CHR ''<'' \<Longrightarrow>
   wait_for_start (noise @ CHR ''<'' # stream) = Returns stream"
  by (induction noise) (simp_all add: decode_def START_MARKER_def is_START_MARKER)

lemma save_until_end_payload:
  "\<forall>b \<in> set payload. (of_char b :: nat) < 128 \<and> b \<noteq> CHR ''>'' \<Longrightarrow>
   save_until_end recieve_string (payload @ CHR ''>'' # stream)
     = Returns (recieve_string @ filter (\<lambda>c. c \<noteq> CHR ''<'') payload, stream)"
  by (induction payload arbitrary: recieve_string)
    (simp_all add: decode_def START_MARKER_def END_MARKER_def is_START_MARKER is_END_MARKER)

text \<open>
  For ASCII bytes the framing holds. The bytes that arrive are noise without a start
  marker, a start marker, a payload without an end marker, an end marker, and whatever
  follows; every byte of the noise and of the payload is below 128. Then
  \<^verbatim>\<open>recieve_from_arduino\<close> returns, what it returns is the payload without its start markers,
  no marker is in it, nothing of the noise is in it, the bytes after the end marker are left
  unread, and a payload without markers is returned as it is.
\<close>

theorem recieve_from_arduino_frame:
  assumes "\<forall>b \<in> set noise \<union> set payload. (of_char b :: nat) < 128"
    and "CHR ''<'' \<notin> set noise"
    and "CHR ''>'' \<notin> set payload"
  shows "\<exists>msg. recieve_from_arduino (noise @ ''<'' @ payload @ ''>'' @ stream) = Returns (msg, stream)
      \<and> msg = filter (\<lambda>c. c \<noteq> CHR ''<'') payload
      \<and> CHR ''<'' \<notin> set msg \<and> CHR ''>'' \<notin> set msg
      \<and> (CHR ''<'' \<notin> set payload \<longrightarrow> msg = payload)"
proof -
  have n: "\<forall>b \<in> set noise. (of_char b :: nat) < 128 \<and> b \<noteq> CHR ''<''"
    using assms(1,2) by auto
  have p: "\<forall>b \<in> set payload. (of_char b :: nat) < 128 \<and> b \<noteq> CHR ''>''"
    using assms(1,3) by auto
  have "recieve_from_arduino (noise @ ''<'' @ payload @ ''>'' @ stream)
      = Returns (filter (\<lambda>c. c \<noteq> CHR ''<'') payload, stream)"
    using wait_for_start_noise [OF n] save_until_end_payload [OF p, of "[]"]
    by (simp add: recieve_from_arduino_def)
  moreover have "CHR ''>'' \<notin> set (filter (\<lambda>c. c \<noteq> CHR ''<'') payload)"
    using assms(3) by simp
  moreover have "CHR ''<'' \<notin> set payload \<longrightarrow> filter (\<lambda>c. c \<noteq> CHR ''<'') payload = payload"
    by (auto simp: filter_id_conv)
  ultimately show ?thesis by simp
qed

theorem recieve_from_arduino_frame_witness:
  "recieve_from_arduino ''boot>ing<<Arduino <is ready><next>''
     = Returns (''Arduino is ready'', ''<next>'')
   \<and> recieve_from_arduino ''<Up,1>'' = Returns (''Up,1'', [])"
  using recieve_from_arduino_frame [of "''boot>ing''" "''<Arduino <is ready''" "''<next>''"]
    recieve_from_arduino_frame [of "[]" "''Up,1''" "[]"]
  by simp

text \<open>
  Claim C5. The first loop of \<^verbatim>\<open>recieve_from_arduino\<close> is there to skip everything before
  the start marker, but every byte is decoded as UTF-8 on its own before it is looked at: a
  byte from 128 up in the noise ends the call with \<^verbatim>\<open>UnicodeDecodeError\<close> and the frame
  after it is not read. Nothing catches that exception: in the handshake the thread ends
  without a result and \<^verbatim>\<open>connect_to_arrays\<close> leaves \<^verbatim>\<open>main\<close> by \<^verbatim>\<open>TypeError\<close>, where the
  same frame without the noise byte connects the device.
\<close>

theorem recieve_from_arduino_not_ascii:
  "recieve_from_arduino ([CHR 0xFF] @ ''<'' @ ''ok'' @ ''>'' @ []) = Raises UnicodeDecodeError ''<ok>''
   \<and> main_connect (Some [''/dev/ttyUSB0''])
       (\<lambda>a. Some ([CHR 0xFF] @ ''<'' @ ''Arduino is ready 0 2'' @ ''>'' @ [])) []
     = ([Opened ''/dev/ttyUSB0''
           (Serial \<lparr>is_open = True, incoming = ''<Arduino is ready 0 2>''\<rparr>)],
        Inl TypeError)
   \<and> main_connect (Some [''/dev/ttyUSB0''])
       (\<lambda>a. Some ([] @ ''<'' @ ''Arduino is ready 0 2'' @ ''>'' @ [])) []
     = ([Connected \<lparr>address = ''/dev/ttyUSB0'',
           connection = Serial \<lparr>is_open = True, incoming = []\<rparr>,
           array_number = 0, motors = 2\<rparr>], Inr ())"
  by (simp add: main_connect_def find_arduinos_def MAX_NUMBER_OF_ARRAYS_def
      MAX_NUMBER_OF_MOTORS_def connect_to_arrays_def wait_for_arduino_connection_def
      wait_for_arduino_connection_execute_def wait_for_ready.simps py_find_def
      recieve_from_arduino_def decode_def START_MARKER_def END_MARKER_def
      except_Error_def array_info_of_def py_split_def isspace_def isdigit_def is_digit_def
      py_int_def py_index_def lint_serial_port_values_def Let_def)

section \<open>The command diff in general\<close>

lemma example_grids:
  "position_grid example_desired" "position_grid example_current"
  "position_grid example_desired'" "position_grid example_current'"
  by (simp_all add: position_grid_def example_defs MAX_NUMBER_OF_ARRAYS_def MAX_NUMBER_OF_MOTORS_def)

lemma example_ports: "connected_device example_port0" "connected_device example_port1"
  by (simp_all add: connected_device_def example_defs MAX_NUMBER_OF_ARRAYS_def MAX_NUMBER_OF_MOTORS_def)

lemma csv_columns_skip:
  "motor_count \<le> int k \<Longrightarrow> csv_columns motor_count current_row rest k cs = Inr cs"
  by (induction rest arbitrary: k) auto

lemma csv_columns_text:
  assumes "nat motor_count \<le> length desired_row" and "nat motor_count \<le> length current_row"
  shows "csv_columns motor_count current_row (drop k desired_row) k cs
     = Inr (cs @ concat (map (\<lambda>s. instruction_text (diff_instruction (current_row ! s) (desired_row ! s)) @ '','')
                      [k..<nat motor_count]))"
proof (induction "nat motor_count - k" arbitrary: k cs)
  case 0
  then have "motor_count \<le> int k" by linarith
  moreover from 0 have "[k..<nat motor_count] = []" by simp
  ultimately show ?case by (simp add: csv_columns_skip)
next
  case (Suc n)
  then have k: "k < nat motor_count" by linarith
  then have d: "drop k desired_row = desired_row ! k # drop (Suc k) desired_row"
    using assms(1) by (simp add: Cons_nth_drop_Suc)
  have c: "py_index current_row (int k) = Inr (current_row ! k)"
    using k assms(2) by (simp add: py_index_def)
  have u: "[k..<nat motor_count] = k # [Suc k..<nat motor_count]"
    using k by (simp add: upt_conv_Cons)
  have n: "n = nat motor_count - Suc k" using Suc.hyps(2) by linarith
  have lt: "int k < motor_count" using k by linarith
  show ?case
    unfolding d u
    using lt c Suc.hyps(1) [OF n]
    by (simp add: Let_def instruction_text_def diff_instruction_def)
qed

lemma butlast_concat_join:
  "xs \<noteq> [] \<Longrightarrow> butlast (concat (map (\<lambda>x. x @ [c]) xs)) = join [c] xs"
proof (induction "[c]" xs rule: join.induct)
  case 1
  then show ?case by simp
next
  case (2 x)
  then show ?case by simp
next
  case (3 x y ys)
  then show ?case by (simp add: butlast_append)
qed


lemma csv_array_text:
  assumes "0 \<le> array_number d"
    and "array_number d < int (length desired)" and "array_number d < int (length current)"
    and "nat (motors d) \<le> length (desired ! nat (array_number d))"
    and "nat (motors d) \<le> length (current ! nat (array_number d))"
    and "1 \<le> motors d"
  shows "csv_array desired current d cs = Inr (cs @ device_text (diff_row desired current d) @ '';'')"
proof -
  let ?f = "\<lambda>s. instruction_text (diff_instruction (current ! nat (array_number d) ! s)
                 (desired ! nat (array_number d) ! s))"
  let ?items = "map ?f [0..<nat (motors d)]"
  have ne: "?items \<noteq> []" using assms(6) by simp
  have cols: "csv_columns (motors d) (current ! nat (array_number d))
        (desired ! nat (array_number d)) 0 (cs @ ''<'')
      = Inr ((cs @ ''<'') @ concat (map (\<lambda>x. x @ '','') ?items))"
    using csv_columns_text [OF assms(4,5), of 0 "cs @ ''<''"] by (simp add: comp_def)
  have nonempty: "concat (map (\<lambda>x. x @ '','') ?items) \<noteq> []"
    using ne by (cases "?items") simp_all
  have "butlast ((cs @ ''<'') @ concat (map (\<lambda>x. x @ '','') ?items))
      = (cs @ ''<'') @ join '','' ?items"
    using nonempty butlast_concat_join [OF ne, of "CHR '',''"] by (simp add: butlast_append)
  moreover have "py_index desired (array_number d) = Inr (desired ! nat (array_number d))"
    using assms(1,2) by (simp add: py_index_def)
  moreover have "py_index current (array_number d) = Inr (current ! nat (array_number d))"
    using assms(1,3) by (simp add: py_index_def)
  ultimately show ?thesis
    unfolding csv_array_def using cols
    by (simp add: device_text_def diff_row_def comp_def)
qed

lemma csv_arrays_text:
  assumes "\<forall>d \<in> set serial_ports. 0 \<le> array_number d
      \<and> array_number d < int (length desired) \<and> array_number d < int (length current)
      \<and> nat (motors d) \<le> length (desired ! nat (array_number d))
      \<and> nat (motors d) \<le> length (current ! nat (array_number d))
      \<and> 1 \<le> motors d"
  shows "csv_arrays desired current serial_ports cs
     = Inr (cs @ concat (map (\<lambda>d. device_text (diff_row desired current d) @ '';'') serial_ports))"
  using assms
proof (induction serial_ports arbitrary: cs)
  case Nil
  then show ?case by simp
next
  case (Cons d ds)
  then show ?case by (simp add: csv_array_text)
qed

lemma commands_from_csv_text:
  assumes "\<forall>d \<in> set serial_ports. 0 \<le> array_number d
      \<and> array_number d < int (length desired) \<and> array_number d < int (length current)
      \<and> nat (motors d) \<le> length (desired ! nat (array_number d))
      \<and> nat (motors d) \<le> length (current ! nat (array_number d))
      \<and> 1 \<le> motors d"
  shows "commands_from_csv desired current serial_ports
     = Inr (batch_text (map (diff_row desired current) serial_ports))"
proof (cases "serial_ports = []")
  case True
  then show ?thesis by (simp add: commands_from_csv_def batch_text_def)
next
  case False
  then have ne: "map (\<lambda>d. device_text (diff_row desired current d)) serial_ports \<noteq> []" by simp
  show ?thesis
    unfolding commands_from_csv_def csv_arrays_text [OF assms] batch_text_def
    using butlast_concat_join [OF ne, of "CHR '';''"] by (simp add: comp_def)
qed

lemma position_grid_row:
  assumes "position_grid g" and "connected_device d"
  shows "array_number d < int (length g) \<and> nat (motors d) \<le> length (g ! nat (array_number d))"
proof -
  from assms have a: "0 \<le> array_number d" "array_number d < int (length g)"
    by (simp_all add: position_grid_def connected_device_def)
  then have "g ! nat (array_number d) \<in> set g" by simp
  with assms(1) have "int (length (g ! nat (array_number d))) = MAX_NUMBER_OF_MOTORS"
    by (simp add: position_grid_def list_all_iff)
  with assms(2) have "nat (motors d) \<le> length (g ! nat (array_number d))"
    unfolding connected_device_def by linarith
  with a show ?thesis by simp
qed

text \<open>
  Claim C1. For position grids \<open>desired\<close> and \<open>current\<close> and connected devices, the command
  string \<^verbatim>\<open>commands_from_csv\<close> builds is the wire text of a batch with one instruction
  list per device, in the order of the devices; the list of device \<open>d\<close> has one
  instruction per motor slot \<open>s < motors d\<close>, whose magnitude is
  \<open>\<bar>current[array_number d][s] - desired[array_number d][s]\<bar>\<close> and whose direction is Down
  when that difference current minus desired is negative, Up when it is positive and None
  when it is zero.
\<close>

theorem commands_from_csv_diff:
  assumes "position_grid desired" and "position_grid current"
    and "\<forall>d \<in> set serial_ports. connected_device d"
  shows "\<exists>batch. commands_from_csv desired current serial_ports = Inr (batch_text batch)
     \<and> length batch = length serial_ports
     \<and> (\<forall>i < length serial_ports.
          length (batch ! i) = nat (motors (serial_ports ! i))
          \<and> (\<forall>s < nat (motors (serial_ports ! i)).
               magnitude (batch ! i ! s)
                 = \<bar>current ! nat (array_number (serial_ports ! i)) ! s
                     - desired ! nat (array_number (serial_ports ! i)) ! s\<bar>
               \<and> direction (batch ! i ! s)
                 = (if current ! nat (array_number (serial_ports ! i)) ! s
                        - desired ! nat (array_number (serial_ports ! i)) ! s < 0 then Down
                    else if current ! nat (array_number (serial_ports ! i)) ! s
                        - desired ! nat (array_number (serial_ports ! i)) ! s > 0 then Up
                    else None_dir)))"
proof -
  have ok: "\<forall>d \<in> set serial_ports. 0 \<le> array_number d
      \<and> array_number d < int (length desired) \<and> array_number d < int (length current)
      \<and> nat (motors d) \<le> length (desired ! nat (array_number d))
      \<and> nat (motors d) \<le> length (current ! nat (array_number d))
      \<and> 1 \<le> motors d"
    using assms position_grid_row [of desired] position_grid_row [of current]
    by (auto simp: connected_device_def)
  let ?batch = "map (diff_row desired current) serial_ports"
  have "commands_from_csv desired current serial_ports = Inr (batch_text ?batch)"
    by (rule commands_from_csv_text [OF ok])
  moreover have "length ?batch = length serial_ports" by simp
  moreover have "\<forall>i < length serial_ports.
          length (?batch ! i) = nat (motors (serial_ports ! i))
          \<and> (\<forall>s < nat (motors (serial_ports ! i)).
               magnitude (?batch ! i ! s)
                 = \<bar>current ! nat (array_number (serial_ports ! i)) ! s
                     - desired ! nat (array_number (serial_ports ! i)) ! s\<bar>
               \<and> direction (?batch ! i ! s)
                 = (if current ! nat (array_number (serial_ports ! i)) ! s
                        - desired ! nat (array_number (serial_ports ! i)) ! s < 0 then Down
                    else if current ! nat (array_number (serial_ports ! i)) ! s
                        - desired ! nat (array_number (serial_ports ! i)) ! s > 0 then Up
                    else None_dir))"
    by (simp add: diff_row_def diff_instruction_def)
  ultimately show ?thesis by blast
qed

theorem commands_from_csv_diff_witness:
  "position_grid example_desired \<and> position_grid example_current
   \<and> connected_device example_port0 \<and> connected_device example_port1
   \<and> (\<exists>batch. commands_from_csv example_desired example_current [example_port0, example_port1]
          = Inr (batch_text batch)
        \<and> length batch = 2 \<and> length (batch ! 0) = 2 \<and> length (batch ! 1) = 3
        \<and> magnitude (batch ! 0 ! 0) = 2 \<and> direction (batch ! 0 ! 0) = Up
        \<and> magnitude (batch ! 1 ! 1) = 5 \<and> direction (batch ! 1 ! 1) = Down
        \<and> magnitude (batch ! 1 ! 2) = 0 \<and> direction (batch ! 1 ! 2) = None_dir)"
proof -
  have ports: "\<forall>d \<in> set [example_port0, example_port1]. connected_device d"
    using example_ports by simp
  from commands_from_csv_diff [OF example_grids(1,2) ports] obtain batch where
    cmd: "commands_from_csv example_desired example_current [example_port0, example_port1]
          = Inr (batch_text batch)"
    and len: "length batch = length [example_port0, example_port1]"
    and each: "\<forall>i < length [example_port0, example_port1].
          length (batch ! i) = nat (motors ([example_port0, example_port1] ! i))
          \<and> (\<forall>s < nat (motors ([example_port0, example_port1] ! i)).
               magnitude (batch ! i ! s)
                 = \<bar>example_current ! nat (array_number ([example_port0, example_port1] ! i)) ! s
                     - example_desired ! nat (array_number ([example_port0, example_port1] ! i)) ! s\<bar>
               \<and> direction (batch ! i ! s)
                 = (if example_current ! nat (array_number ([example_port0, example_port1] ! i)) ! s
                        - example_desired ! nat (array_number ([example_port0, example_port1] ! i)) ! s < 0 then Down
                    else if example_current ! nat (array_number ([example_port0, example_port1] ! i)) ! s
                        - example_desired ! nat (array_number ([example_port0, example_port1] ! i)) ! s > 0 then Up
                    else None_dir))"
    by blast
  from each [rule_format, of 0] have zero:
    "length (batch ! 0) = 2"
    "magnitude (batch ! 0 ! 0) = 2" "direction (batch ! 0 ! 0) = Up"
    by (simp_all add: example_defs)
  from each [rule_format, of 1] have one:
    "length (batch ! 1) = 3"
    "magnitude (batch ! 1 ! 1) = 5" "direction (batch ! 1 ! 1) = Down"
    "magnitude (batch ! 1 ! 2) = 0" "direction (batch ! 1 ! 2) = None_dir"
    by (simp_all add: example_defs)
  show ?thesis
    using example_grids(1,2) example_ports cmd len zero one by auto
qed

text \<open>
  Claim C10. For a device \<open>d\<close>, what the loop body of \<^verbatim>\<open>commands_from_csv\<close> appends to the
  command string depends only on the cells of row \<open>array_number d\<close> at the columns below
  \<open>motors d\<close>: two pairs of position grids that agree on those cells of the desired and of
  the current grid give the same text, whatever the other rows and the other columns hold.
\<close>

theorem csv_array_depends_on_own_cells:
  assumes "position_grid desired" and "position_grid current"
    and "position_grid desired'" and "position_grid current'"
    and "connected_device d"
    and "\<forall>s < nat (motors d).
           desired ! nat (array_number d) ! s = desired' ! nat (array_number d) ! s
         \<and> current ! nat (array_number d) ! s = current' ! nat (array_number d) ! s"
  shows "csv_array desired current d cs = csv_array desired' current' d cs"
proof -
  have "diff_row desired current d = diff_row desired' current' d"
    using assms(6) by (simp add: diff_row_def)
  moreover have "csv_array desired current d cs
      = Inr (cs @ device_text (diff_row desired current d) @ '';'')"
    using assms(1,2,5) position_grid_row [of desired d] position_grid_row [of current d]
    by (intro csv_array_text) (simp_all add: connected_device_def)
  moreover have "csv_array desired' current' d cs
      = Inr (cs @ device_text (diff_row desired' current' d) @ '';'')"
    using assms(3,4,5) position_grid_row [of desired' d] position_grid_row [of current' d]
    by (intro csv_array_text) (simp_all add: connected_device_def)
  ultimately show ?thesis by simp
qed

theorem csv_array_depends_on_own_cells_witness:
  "position_grid example_desired \<and> position_grid example_current
   \<and> position_grid example_desired' \<and> position_grid example_current'
   \<and> connected_device example_port0
   \<and> example_desired \<noteq> example_desired' \<and> example_current \<noteq> example_current'
   \<and> csv_array example_desired example_current example_port0 []
       = csv_array example_desired' example_current' example_port0 []"
proof -
  have cells: "\<forall>s < nat (motors example_port0).
      example_desired ! nat (array_number example_port0) ! s
        = example_desired' ! nat (array_number example_port0) ! s
      \<and> example_current ! nat (array_number example_port0) ! s
        = example_current' ! nat (array_number example_port0) ! s"
    by (simp add: example_defs less_Suc_eq eval_nat_numeral)
  have "example_desired \<noteq> example_desired'" "example_current \<noteq> example_current'"
    by (simp_all add: example_defs)
  then show ?thesis
    using csv_array_depends_on_own_cells [OF example_grids example_ports(1) cells, of "[]"]
      example_grids example_ports(1)
    by simp
qed

section \<open>Workers and pieces of the command string\<close>

lemma digit_char_in: "d < 10 \<Longrightarrow> digit_char d \<in> set ''0123456789''"
  unfolding digit_char_def by (rule nth_mem) simp

lemma str_nat_digits: "set (str_nat n) \<subseteq> set ''0123456789''"
proof (induction n rule: str_nat.induct)
  case (1 n)
  show ?case
  proof (cases "n < 10")
    case True
    then show ?thesis
      using digit_char_in [of n] by (subst str_nat.simps) simp
  next
    case False
    then have "set (str_nat (n div 10)) \<subseteq> set ''0123456789''" by (rule 1)
    moreover have "digit_char (n mod 10) \<in> set ''0123456789''"
      by (rule digit_char_in) simp
    ultimately show ?thesis
      using False by (subst str_nat.simps) simp
  qed
qed

lemma py_str_abs_no_semicolon: "CHR '';'' \<notin> set (py_str \<bar>i\<bar>)"
  using str_nat_digits [of "nat \<bar>i\<bar>"] by (auto simp: py_str_def)

lemma csv_columns_appends:
  "csv_columns motor_count current_row rest k cs = Inr r \<Longrightarrow>
   \<exists>body. r = cs @ body \<and> CHR '';'' \<notin> set body"
proof (induction rest arbitrary: k cs)
  case Nil
  then show ?case by simp
next
  case (Cons desired_cell rest)
  show ?case
  proof (cases "int k < motor_count")
    case False
    with Cons.prems have "csv_columns motor_count current_row rest (Suc k) cs = Inr r" by simp
    then show ?thesis by (rule Cons.IH)
  next
    case True
    with Cons.prems obtain current_cell where
      "csv_columns motor_count current_row rest (Suc k)
         (cs @ (if current_cell - desired_cell < 0 then ''Down,''
                else if current_cell - desired_cell > 0 then ''Up,'' else ''None,'')
             @ py_str \<bar>current_cell - desired_cell\<bar> @ '','') = Inr r"
      by (auto simp: Let_def split: sum.splits)
    from Cons.IH [OF this] obtain body where
      "r = (cs @ (if current_cell - desired_cell < 0 then ''Down,''
                else if current_cell - desired_cell > 0 then ''Up,'' else ''None,'')
             @ py_str \<bar>current_cell - desired_cell\<bar> @ '','') @ body"
      and "CHR '';'' \<notin> set body"
      by blast
    then show ?thesis
      using py_str_abs_no_semicolon [of "current_cell - desired_cell"] by auto
  qed
qed

lemma csv_array_appends:
  assumes "csv_array desired current d cs = Inr r"
  shows "\<exists>seg. r = cs @ seg @ '';'' \<and> CHR '';'' \<notin> set seg"
proof -
  from assms obtain desired_row current_row r' where
    cols: "csv_columns (motors d) current_row desired_row 0 (cs @ ''<'') = Inr r'"
    and r: "r = butlast r' @ ''>;''"
    by (auto simp: csv_array_def split: sum.splits)
  from csv_columns_appends [OF cols] obtain body where
    r': "r' = (cs @ ''<'') @ body" and body: "CHR '';'' \<notin> set body"
    by blast
  have "butlast r' = cs @ butlast (''<'' @ body)"
    unfolding r' by (simp add: butlast_append)
  moreover have "CHR '';'' \<notin> set (butlast (''<'' @ body))"
    using body by (auto dest: in_set_butlastD)
  ultimately have "r = cs @ (butlast (''<'' @ body) @ ''>'') @ '';''
      \<and> CHR '';'' \<notin> set (butlast (''<'' @ body) @ ''>'')"
    using r by simp
  then show ?thesis by blast
qed

lemma csv_arrays_appends:
  "csv_arrays desired current serial_ports cs = Inr r \<Longrightarrow>
   \<exists>segs. length segs = length serial_ports
     \<and> r = cs @ concat (map (\<lambda>seg. seg @ '';'') segs)
     \<and> (\<forall>seg \<in> set segs. CHR '';'' \<notin> set seg)"
proof (induction serial_ports arbitrary: cs)
  case Nil
  then show ?case by simp
next
  case (Cons d ds)
  from Cons.prems obtain r' where
    a: "csv_array desired current d cs = Inr r'"
    and b: "csv_arrays desired current ds r' = Inr r"
    by (auto split: sum.splits)
  from csv_array_appends [OF a] obtain seg where
    seg: "r' = cs @ seg @ '';''" "CHR '';'' \<notin> set seg" by blast
  from Cons.IH [OF b] obtain segs where
    segs: "length segs = length ds" "r = r' @ concat (map (\<lambda>seg. seg @ '';'') segs)"
      "\<forall>seg \<in> set segs. CHR '';'' \<notin> set seg" by blast
  have "length (seg # segs) = length (d # ds)
     \<and> r = cs @ concat (map (\<lambda>seg. seg @ '';'') (seg # segs))
     \<and> (\<forall>s \<in> set (seg # segs). CHR '';'' \<notin> set s)"
    using seg segs by simp
  then show ?case by blast
qed

lemma split_sep_piece:
  "sep \<notin> set s \<Longrightarrow> split_sep sep piece (s @ rest) = split_sep sep (piece @ s) rest"
  by (induction s arbitrary: piece) auto

lemma split_sep_join:
  "\<forall>s \<in> set (seg # segs). sep \<notin> set s \<Longrightarrow>
   split_sep sep piece (join [sep] (seg # segs)) = (piece @ seg) # segs"
proof (induction segs arbitrary: seg piece)
  case Nil
  then show ?case using split_sep_piece [of sep seg piece "[]"] by simp
next
  case (Cons s segs)
  then have "split_sep sep [] (join [sep] (s # segs)) = s # segs" by simp
  moreover have "sep \<notin> set seg" using Cons.prems by simp
  ultimately show ?case
    using split_sep_piece [of sep seg piece "sep # join [sep] (s # segs)"] by simp
qed

lemma py_split_sep_segments:
  assumes "segs \<noteq> []" and "\<forall>s \<in> set segs. sep \<notin> set s"
  shows "py_split_sep (butlast (concat (map (\<lambda>seg. seg @ [sep]) segs))) sep = segs"
proof -
  from assms(1) obtain seg segs' where s: "segs = seg # segs'" by (cases segs) auto
  show ?thesis
    unfolding py_split_sep_def butlast_concat_join [OF assms(1)]
    using split_sep_join [of seg segs' sep "[]"] assms(2) unfolding s by simp
qed

lemma commands_from_csv_pieces:
  assumes "serial_ports \<noteq> []"
    and "commands_from_csv desired current serial_ports = Inr command_string"
  shows "length (py_split_sep command_string CHR '';'') = length serial_ports"
proof -
  from assms(2) obtain r where
    r: "csv_arrays desired current serial_ports [] = Inr r" and c: "command_string = butlast r"
    by (auto simp: commands_from_csv_def split: sum.splits)
  from csv_arrays_appends [OF r] obtain segs where
    segs: "length segs = length serial_ports" "r = concat (map (\<lambda>seg. seg @ '';'') segs)"
      "\<forall>seg \<in> set segs. CHR '';'' \<notin> set seg" by auto
  from segs(1) assms(1) have "segs \<noteq> []" by auto
  from py_split_sep_segments [OF this segs(3)] show ?thesis
    using segs(1,2) c by simp
qed

lemma reset_motors_appends:
  "reset_motors n cs = cs @ concat (replicate n ''Up,100,'')"
  by (induction n arbitrary: cs) simp_all

lemma reset_arrays_appends:
  "\<exists>segs. length segs = length serial_ports
     \<and> reset_arrays serial_ports cs = cs @ concat (map (\<lambda>seg. seg @ '';'') segs)
     \<and> (\<forall>seg \<in> set segs. CHR '';'' \<notin> set seg)"
proof (induction serial_ports arbitrary: cs)
  case Nil
  then show ?case by simp
next
  case (Cons p ps)
  let ?seg = "butlast (''<'' @ concat (replicate (nat (motors p)) ''Up,100,'')) @ ''>''"
  have "CHR '';'' \<notin> set (concat (replicate (nat (motors p)) ''Up,100,''))" by auto
  then have no: "CHR '';'' \<notin> set ?seg" by (auto dest: in_set_butlastD)
  have step: "butlast (reset_motors (nat (motors p)) (cs @ ''<'')) @ ''>;'' = cs @ ?seg @ '';''"
    by (simp add: reset_motors_appends butlast_append)
  from Cons.IH [of "cs @ ?seg @ '';''"] obtain segs where
    segs: "length segs = length ps"
      "reset_arrays ps (cs @ ?seg @ '';'') = (cs @ ?seg @ '';'') @ concat (map (\<lambda>seg. seg @ '';'') segs)"
      "\<forall>seg \<in> set segs. CHR '';'' \<notin> set seg" by blast
  have "length (?seg # segs) = length (p # ps)
     \<and> reset_arrays (p # ps) cs = cs @ concat (map (\<lambda>seg. seg @ '';'') (?seg # segs))
     \<and> (\<forall>s \<in> set (?seg # segs). CHR '';'' \<notin> set s)"
    using segs no step by simp
  then show ?case by blast
qed

lemma reset_command_pieces:
  assumes "serial_ports \<noteq> []"
  shows "length (py_split_sep (reset_command serial_ports) CHR '';'') = length serial_ports"
proof -
  from reset_arrays_appends [of serial_ports "[]"] obtain segs where
    segs: "length segs = length serial_ports"
      "reset_arrays serial_ports [] = concat (map (\<lambda>seg. seg @ '';'') segs)"
      "\<forall>seg \<in> set segs. CHR '';'' \<notin> set seg" by auto
  from segs(1) assms have "segs \<noteq> []" by auto
  from py_split_sep_segments [OF this segs(3)] show ?thesis
    using segs(1,2) by (simp add: reset_command_def)
qed

lemma length_workers_from: "length (workers_from count parse_text) = length parse_text"
  by (induction parse_text arbitrary: count) simp_all

lemma nth_workers_from:
  "i < length parse_text \<Longrightarrow>
   workers_from count parse_text ! i = \<lparr>parce_string = parse_text ! i, port_index = count + i\<rparr>"
proof (induction parse_text arbitrary: count i)
  case Nil
  then show ?case by simp
next
  case (Cons piece parse_text)
  then show ?case by (cases i) simp_all
qed

lemma create_threads_result:
  "create_threads parse_text (length ws) (map Some ws @ replicate k None) =
     (map Some (ws @ workers_from (length ws) (take k parse_text))
        @ replicate (k - length parse_text) None,
      if length parse_text \<le> k then Inr () else Inl IndexError)"
proof (induction parse_text arbitrary: ws k)
  case Nil
  then show ?case by simp
next
  case (Cons piece parse_text)
  show ?case
  proof (cases k)
    case 0
    then show ?thesis by simp
  next
    case (Suc k')
    let ?w = "\<lparr>parce_string = piece, port_index = length ws\<rparr>"
    have upd: "(map Some ws @ replicate k None)[length ws := Some ?w]
        = map Some (ws @ [?w]) @ replicate k' None"
      unfolding Suc by (simp add: list_update_append)
    show ?thesis
      using Cons.IH [of "ws @ [?w]" k'] upd Suc by simp
  qed
qed

lemma started_Some: "started (map Some ws @ replicate k None) = ws"
  by (induction ws) (simp_all add: started_def)

lemma join_threads_result:
  "count + length parse_text \<le> length ws \<Longrightarrow>
   join_threads parse_text count (map Some ws @ rest)
     = (take (length parse_text) (drop count ws), Inr ())"
proof (induction parse_text arbitrary: count)
  case Nil
  then show ?case by simp
next
  case (Cons piece parse_text)
  then have c: "count < length ws" and n: "Suc count + length parse_text \<le> length ws"
    by simp_all
  from c have "py_index (map Some ws @ rest) (int count) = Inr (Some (ws ! count))"
    by (simp add: py_index_def nth_append)
  moreover have "take (Suc (length parse_text)) (drop count ws)
      = ws ! count # take (length parse_text) (drop (Suc count) ws)"
    using c by (simp add: Cons_nth_drop_Suc [symmetric])
  ultimately show ?case
    using Cons.IH [OF n] by simp
qed

lemma execute_commands_result:
  "execute_commands serial_ports command_string =
     \<lparr>thread_slots =
        map Some (workers_from 0 (take (length serial_ports) (py_split_sep command_string CHR '';'')))
        @ replicate (length serial_ports - length (py_split_sep command_string CHR '';'')) None,
      joined_workers =
        (if length (py_split_sep command_string CHR '';'') \<le> length serial_ports
         then workers_from 0 (py_split_sep command_string CHR '';'') else []),
      worker_runs =
        map (\<lambda>w. move_arrays serial_ports (parce_string w) (port_index w))
          (workers_from 0 (take (length serial_ports) (py_split_sep command_string CHR '';''))),
      raised =
        (if length (py_split_sep command_string CHR '';'') \<le> length serial_ports
         then Inr () else Inl IndexError)\<rparr>"
proof -
  let ?pieces = "py_split_sep command_string CHR '';''"
  let ?n = "length serial_ports"
  let ?ws = "workers_from 0 (take ?n ?pieces)"
  have created: "create_threads ?pieces 0 (replicate ?n None)
      = (map Some ?ws @ replicate (?n - length ?pieces) None,
         if length ?pieces \<le> ?n then Inr () else Inl IndexError)"
    using create_threads_result [of ?pieces "[]" ?n] by simp
  show ?thesis
  proof (cases "length ?pieces \<le> ?n")
    case True
    then have "join_threads ?pieces 0 (map Some ?ws @ replicate (?n - length ?pieces) None)
        = (take (length ?pieces) (drop 0 ?ws), Inr ())"
      by (intro join_threads_result) (simp add: length_workers_from)
    with True show ?thesis
      unfolding execute_commands_def Let_def created
      by (simp add: started_Some length_workers_from)
  next
    case False
    then show ?thesis
      unfolding execute_commands_def Let_def created
      by (simp add: started_Some started_Some [of _ 0, simplified])
  qed
qed

lemma move_arrays_own_row:
  assumes "i < length serial_ports" and "i < length serial_ports'"
    and "serial_ports' ! i = serial_ports ! i"
  shows "move_arrays serial_ports' piece i = move_arrays serial_ports piece i"
proof -
  have "py_index serial_ports (int i) = Inr (serial_ports ! i)"
    using assms(1) by (simp add: py_index_def)
  moreover have "py_index serial_ports' (int i) = Inr (serial_ports ! i)"
    using assms(2,3) by (simp add: py_index_def)
  ultimately show ?thesis
    by (simp add: move_arrays_def move_arrays_execute_def)
qed

lemma worker_runs_nth:
  assumes "i < length (py_split_sep command_string CHR '';'')" and "i < length serial_ports"
  shows "worker_runs (execute_commands serial_ports command_string) ! i
     = move_arrays serial_ports (py_split_sep command_string CHR '';'' ! i) i"
proof -
  let ?taken = "take (length serial_ports) (py_split_sep command_string CHR '';'')"
  have i: "i < length ?taken" using assms by simp
  then have "workers_from 0 ?taken ! i = \<lparr>parce_string = ?taken ! i, port_index = 0 + i\<rparr>"
    by (rule nth_workers_from)
  then show ?thesis
    using i assms by (simp add: execute_commands_result length_workers_from)
qed

text \<open>
  Claim C8. Whenever \<^verbatim>\<open>execute_commands\<close> returns, it has joined every worker it started,
  and every started worker has run to its end: a reply, the timeout, or an exception of its
  own. It returns whenever the command string has no more pieces than there are devices,
  whatever the ends of the workers are, and so for every command of the CSV diff and of the
  reset for a device list that is not empty. What worker \<open>i\<close> does is \<^verbatim>\<open>move_arrays\<close> on row
  \<open>i\<close> with piece \<open>i\<close>: it is the same whatever the other rows hold, and so whatever the
  other workers meet. (With more pieces than devices the call does not return; that run is
  under claim C9.)
\<close>

theorem execute_commands_barrier:
  "(raised (execute_commands serial_ports command_string) = Inr () \<longrightarrow>
      joined_workers (execute_commands serial_ports command_string)
        = started (thread_slots (execute_commands serial_ports command_string))
      \<and> length (worker_runs (execute_commands serial_ports command_string))
        = length (started (thread_slots (execute_commands serial_ports command_string))))
   \<and> (length (py_split_sep command_string CHR '';'') \<le> length serial_ports \<longrightarrow>
        raised (execute_commands serial_ports command_string) = Inr ())
   \<and> (serial_ports \<noteq> [] \<and> commands_from_csv desired current serial_ports = Inr command_string \<longrightarrow>
        raised (execute_commands serial_ports command_string) = Inr ())
   \<and> (serial_ports \<noteq> [] \<longrightarrow>
        raised (execute_commands serial_ports (reset_command serial_ports)) = Inr ())
   \<and> (i < length (py_split_sep command_string CHR '';'') \<and> i < length serial_ports
        \<and> length serial_ports' = length serial_ports \<and> serial_ports' ! i = serial_ports ! i \<longrightarrow>
        worker_runs (execute_commands serial_ports' command_string) ! i
          = worker_runs (execute_commands serial_ports command_string) ! i
        \<and> worker_runs (execute_commands serial_ports command_string) ! i
          = move_arrays serial_ports (py_split_sep command_string CHR '';'' ! i) i)"
proof (intro conjI impI)
  assume "raised (execute_commands serial_ports command_string) = Inr ()"
  then have le: "length (py_split_sep command_string CHR '';'') \<le> length serial_ports"
    by (simp add: execute_commands_result split: if_splits)
  then show "joined_workers (execute_commands serial_ports command_string)
        = started (thread_slots (execute_commands serial_ports command_string))"
    by (simp add: execute_commands_result started_Some)
  show "length (worker_runs (execute_commands serial_ports command_string))
        = length (started (thread_slots (execute_commands serial_ports command_string)))"
    by (simp add: execute_commands_result started_Some)
next
  assume "length (py_split_sep command_string CHR '';'') \<le> length serial_ports"
  then show "raised (execute_commands serial_ports command_string) = Inr ()"
    by (simp add: execute_commands_result)
next
  assume "serial_ports \<noteq> [] \<and> commands_from_csv desired current serial_ports = Inr command_string"
  then have "length (py_split_sep command_string CHR '';'') = length serial_ports"
    using commands_from_csv_pieces by blast
  then show "raised (execute_commands serial_ports command_string) = Inr ()"
    by (simp add: execute_commands_result)
next
  assume "serial_ports \<noteq> []"
  then have "length (py_split_sep (reset_command serial_ports) CHR '';'') = length serial_ports"
    by (rule reset_command_pieces)
  then show "raised (execute_commands serial_ports (reset_command serial_ports)) = Inr ()"
    by (simp add: execute_commands_result)
next
  assume a: "i < length (py_split_sep command_string CHR '';'') \<and> i < length serial_ports
        \<and> length serial_ports' = length serial_ports \<and> serial_ports' ! i = serial_ports ! i"
  then have "worker_runs (execute_commands serial_ports' command_string) ! i
      = move_arrays serial_ports' (py_split_sep command_string CHR '';'' ! i) i"
    by (intro worker_runs_nth) simp_all
  moreover from a have own: "worker_runs (execute_commands serial_ports command_string) ! i
      = move_arrays serial_ports (py_split_sep command_string CHR '';'' ! i) i"
    by (intro worker_runs_nth) simp_all
  moreover from a have "move_arrays serial_ports' (py_split_sep command_string CHR '';'' ! i) i
      = move_arrays serial_ports (py_split_sep command_string CHR '';'' ! i) i"
    by (intro move_arrays_own_row) simp_all
  ultimately show "worker_runs (execute_commands serial_ports' command_string) ! i
          = worker_runs (execute_commands serial_ports command_string) ! i"
    by simp
  show "worker_runs (execute_commands serial_ports command_string) ! i
          = move_arrays serial_ports (py_split_sep command_string CHR '';'' ! i) i"
    by (rule own)
qed

theorem execute_commands_barrier_witness:
  "raised (execute_commands [example_silent, example_replying, example_garbled]
       ''<Up,1>;<Up,2>;<Up,3>'') = Inr ()
   \<and> joined_workers (execute_commands [example_silent, example_replying, example_garbled]
       ''<Up,1>;<Up,2>;<Up,3>'')
     = started (thread_slots (execute_commands [example_silent, example_replying, example_garbled]
       ''<Up,1>;<Up,2>;<Up,3>''))
   \<and> map ending (worker_runs (execute_commands [example_silent, example_replying, example_garbled]
       ''<Up,1>;<Up,2>;<Up,3>''))
     = [Timed_out, Replied ''done'', Died UnicodeDecodeError]
   \<and> worker_runs (execute_commands [example_replying, example_replying, example_garbled]
       ''<Up,1>;<Up,2>;<Up,3>'') ! 1
     = worker_runs (execute_commands [example_silent, example_replying, example_garbled]
       ''<Up,1>;<Up,2>;<Up,3>'') ! 1
   \<and> ending (worker_runs (execute_commands [example_silent, example_replying, example_garbled]
       ''<Up,1>;<Up,2>;<Up,3>'') ! 1) = Replied ''done''"
proof -
  have pieces: "py_split_sep ''<Up,1>;<Up,2>;<Up,3>'' CHR '';'' = [''<Up,1>'', ''<Up,2>'', ''<Up,3>'']"
    by (simp add: py_split_sep_def)
  note b = execute_commands_barrier [of "[example_silent, example_replying, example_garbled]"
      "''<Up,1>;<Up,2>;<Up,3>''" _ _ 1 "[example_replying, example_replying, example_garbled]"]
  have returned: "raised (execute_commands [example_silent, example_replying, example_garbled]
       ''<Up,1>;<Up,2>;<Up,3>'') = Inr ()"
    using b pieces by simp
  have joined: "joined_workers (execute_commands [example_silent, example_replying, example_garbled]
       ''<Up,1>;<Up,2>;<Up,3>'')
     = started (thread_slots (execute_commands [example_silent, example_replying, example_garbled]
       ''<Up,1>;<Up,2>;<Up,3>''))"
    using b returned by blast
  have own: "worker_runs (execute_commands [example_replying, example_replying, example_garbled]
       ''<Up,1>;<Up,2>;<Up,3>'') ! 1
     = worker_runs (execute_commands [example_silent, example_replying, example_garbled]
       ''<Up,1>;<Up,2>;<Up,3>'') ! 1"
    and run: "worker_runs (execute_commands [example_silent, example_replying, example_garbled]
       ''<Up,1>;<Up,2>;<Up,3>'') ! 1
     = move_arrays [example_silent, example_replying, example_garbled] ''<Up,2>'' 1"
    using b pieces by simp_all
  have endings: "map ending (worker_runs (execute_commands
       [example_silent, example_replying, example_garbled] ''<Up,1>;<Up,2>;<Up,3>''))
     = [Timed_out, Replied ''done'', Died UnicodeDecodeError]"
    by (simp add: execute_commands_result pieces move_arrays_def move_arrays_execute_def
        py_index_def example_silent_def example_replying_def example_garbled_def
        recieve_from_arduino_def decode_def START_MARKER_def END_MARKER_def Let_def)
  have reply: "ending (move_arrays [example_silent, example_replying, example_garbled] ''<Up,2>'' 1)
      = Replied ''done''"
    by (simp add: move_arrays_def move_arrays_execute_def
        py_index_def example_replying_def
        recieve_from_arduino_def decode_def START_MARKER_def END_MARKER_def Let_def)
  show ?thesis
    using returned joined endings own run reply by simp
qed

text \<open>
  Claim C9. The docstring of \<^verbatim>\<open>execute_commands\<close> has one thread for each Arduino and
  \<^verbatim>\<open>threads\<close> has one slot per device, but the loop runs over the pieces of the text. With
  two devices connected the manual text \<^verbatim>\<open><Up,1>\<close> starts one worker, not two, and the call
  returns. With one device connected a text of two pieces starts one worker and then leaves
  \<^verbatim>\<open>execute_commands\<close> by \<^verbatim>\<open>IndexError\<close>, which \<^verbatim>\<open>main\<close> does not catch, with that worker
  not joined.
\<close>

theorem execute_commands_manual_entry:
  "thread_slots (execute_commands [example_port0, example_port1] ''<Up,1>'')
     = [Some \<lparr>parce_string = ''<Up,1>'', port_index = 0\<rparr>, None]
   \<and> raised (execute_commands [example_port0, example_port1] ''<Up,1>'') = Inr ()
   \<and> length (started (thread_slots (execute_commands [example_port0, example_port1] ''<Up,1>'')))
       \<noteq> length [example_port0, example_port1]
   \<and> raised (execute_commands [example_port0] ''<Up,1>;<Up,1>'') = Inl IndexError
   \<and> started (thread_slots (execute_commands [example_port0] ''<Up,1>;<Up,1>''))
       = [\<lparr>parce_string = ''<Up,1>'', port_index = 0\<rparr>]
   \<and> joined_workers (execute_commands [example_port0] ''<Up,1>;<Up,1>'') = []"
  by (simp add: execute_commands_def py_split_sep_def started_def py_index_def)

section \<open>The handshake reply\<close>

lemma split_ws_lead:
  "\<forall>c \<in> set ws. isspace c \<Longrightarrow> split_ws [] (ws @ s) = split_ws [] s"
  by (induction ws) simp_all

lemma split_ws_word:
  "\<forall>c \<in> set t. \<not> isspace c \<Longrightarrow> split_ws word (t @ s) = split_ws (word @ t) s"
  by (induction t arbitrary: word) simp_all

lemma split_ws_sep:
  assumes "word \<noteq> []" and "ws \<noteq> []" and "\<forall>c \<in> set ws. isspace c"
  shows "split_ws word (ws @ s) = word # split_ws [] s"
proof -
  from assms(2) obtain c cs where ws: "ws = c # cs" by (cases ws) auto
  with assms(3) have "isspace c" and "\<forall>c \<in> set cs. isspace c" by simp_all
  then show ?thesis
    unfolding ws using assms(1) split_ws_lead [of cs s] by simp
qed

lemma split_ws_words:
  assumes "word \<noteq> []"
    and "\<forall>(ws, t) \<in> set others. ws \<noteq> [] \<and> (\<forall>c \<in> set ws. isspace c)
             \<and> t \<noteq> [] \<and> (\<forall>c \<in> set t. \<not> isspace c)"
    and "\<forall>c \<in> set trail. isspace c"
  shows "split_ws word (concat (map (\<lambda>(ws, t). ws @ t) others) @ trail) = word # map snd others"
  using assms
proof (induction others arbitrary: word)
  case Nil
  show ?case
  proof (cases "trail = []")
    case True
    with Nil show ?thesis by simp
  next
    case False
    with Nil show ?thesis
      using split_ws_sep [of word trail "[]"] by simp
  qed
next
  case (Cons p others)
  obtain ws t where p: "p = (ws, t)" by (cases p)
  with Cons.prems have ws: "ws \<noteq> []" "\<forall>c \<in> set ws. isspace c"
    and t: "t \<noteq> []" "\<forall>c \<in> set t. \<not> isspace c"
    and others: "\<forall>(ws, t) \<in> set others. ws \<noteq> [] \<and> (\<forall>c \<in> set ws. isspace c)
             \<and> t \<noteq> [] \<and> (\<forall>c \<in> set t. \<not> isspace c)"
    by auto
  have "split_ws word (ws @ t @ concat (map (\<lambda>(ws, t). ws @ t) others) @ trail)
      = word # split_ws [] (t @ concat (map (\<lambda>(ws, t). ws @ t) others) @ trail)"
    using Cons.prems(1) ws by (rule split_ws_sep)
  also have "split_ws [] (t @ concat (map (\<lambda>(ws, t). ws @ t) others) @ trail)
      = split_ws t (concat (map (\<lambda>(ws, t). ws @ t) others) @ trail)"
    using split_ws_word [OF t(2), of "[]"] by simp
  also have "\<dots> = t # map snd others"
    using t(1) others Cons.prems(3) by (rule Cons.IH)
  finally show ?case by (simp add: p)
qed

lemma py_split_words:
  assumes "\<forall>c \<in> set lead. isspace c"
    and "t0 \<noteq> []" and "\<forall>c \<in> set t0. \<not> isspace c"
    and "\<forall>(ws, t) \<in> set others. ws \<noteq> [] \<and> (\<forall>c \<in> set ws. isspace c)
             \<and> t \<noteq> [] \<and> (\<forall>c \<in> set t. \<not> isspace c)"
    and "\<forall>c \<in> set trail. isspace c"
  shows "py_split (lead @ t0 @ concat (map (\<lambda>(ws, t). ws @ t) others) @ trail) = t0 # map snd others"
proof -
  have "py_split (lead @ t0 @ concat (map (\<lambda>(ws, t). ws @ t) others) @ trail)
      = split_ws [] (t0 @ concat (map (\<lambda>(ws, t). ws @ t) others) @ trail)"
    unfolding py_split_def using assms(1) by (rule split_ws_lead)
  also have "\<dots> = split_ws t0 (concat (map (\<lambda>(ws, t). ws @ t) others) @ trail)"
    using split_ws_word [OF assms(3), of "[]"] by simp
  also have "\<dots> = t0 # map snd others"
    using assms(2,4,5) by (rule split_ws_words)
  finally show ?thesis .
qed

lemma recieve_from_arduino_payload:
  assumes "\<forall>b \<in> set noise. (of_char b :: nat) < 128 \<and> b \<noteq> CHR ''<''"
    and "\<forall>b \<in> set payload. (of_char b :: nat) < 128 \<and> b \<noteq> CHR ''<'' \<and> b \<noteq> CHR ''>''"
  shows "recieve_from_arduino (noise @ ''<'' @ payload @ ''>'' @ stream) = Returns (payload, stream)"
proof -
  have p: "\<forall>b \<in> set payload. (of_char b :: nat) < 128 \<and> b \<noteq> CHR ''>''"
    using assms(2) by simp
  have "filter (\<lambda>c. c \<noteq> CHR ''<'') payload = payload"
    using assms(2) by (simp add: filter_id_conv)
  then show ?thesis
    using wait_for_start_noise [OF assms(1)] save_until_end_payload [OF p, of "[]"]
    by (simp add: recieve_from_arduino_def)
qed

lemma wait_for_arduino_connection_execute_ready:
  assumes "\<forall>b \<in> set noise. (of_char b :: nat) < 128 \<and> b \<noteq> CHR ''<''"
    and "\<forall>b \<in> set payload. (of_char b :: nat) < 128 \<and> b \<noteq> CHR ''<'' \<and> b \<noteq> CHR ''>''"
    and "py_find payload ''Arduino is ready'' \<noteq> - 1"
  shows "wait_for_arduino_connection_execute (noise @ ''<'' @ payload @ ''>'' @ stream)
     = Returns (array_info_of payload, stream)"
proof -
  have "py_find [] ''Arduino is ready'' = - 1" by (simp add: py_find_def)
  moreover have "noise @ ''<'' @ payload @ ''>'' @ stream \<noteq> []" by simp
  moreover note recieve_from_arduino_payload [OF assms(1,2), of stream]
  moreover have "wait_for_ready payload stream = Returns (array_info_of payload, stream)"
    using assms(3) by (subst wait_for_ready.simps) simp
  ultimately have "wait_for_ready [] (noise @ ''<'' @ payload @ ''>'' @ stream)
      = Returns (array_info_of payload, stream)"
    by (subst wait_for_ready.simps) (simp del: append_assoc)
  then show ?thesis by (simp add: wait_for_arduino_connection_execute_def)
qed

lemma wait_for_arduino_connection_returns:
  assumes "wait_for_arduino_connection_execute (incoming s) = Returns (info, stream)"
  shows "wait_for_arduino_connection port (Opened a (Serial s)) =
     (if length info < 2
      then ([''Serial Port '' @ py_str (int port) @ '' ''
                @ red ''FAILED: NEGATIVE ARRAY NUMBER OR MOTOR NUMBER PASSED''],
            Opened a (Serial (s\<lparr>incoming := stream\<rparr>)),
            Some (True, Opened a (Serial (s\<lparr>incoming := stream\<rparr>))))
      else ([''Serial Port '' @ py_str (int port) @ '' '' @ green ''READY''],
            Connected \<lparr>address = a, connection = Serial (s\<lparr>incoming := stream\<rparr>),
               array_number = info ! 0, motors = info ! 1\<rparr>,
            Some (False, Connected \<lparr>address = a, connection = Serial (s\<lparr>incoming := stream\<rparr>),
               array_number = info ! 0, motors = info ! 1\<rparr>)))"
proof -
  consider "info = []" | x where "info = [x]" | x y zs where "info = x # y # zs"
    by (cases info; cases "tl info") auto
  then show ?thesis
  proof cases
    case 1
    then show ?thesis
      unfolding wait_for_arduino_connection_def using assms by (simp add: py_index_def Let_def)
  next
    case 2
    then show ?thesis
      unfolding wait_for_arduino_connection_def using assms by (simp add: py_index_def Let_def)
  next
    case 3
    then show ?thesis
      unfolding wait_for_arduino_connection_def using assms by (simp add: py_index_def Let_def)
  qed
qed

text \<open>
  Claim C3, as amended. A handshake payload of ASCII characters without markers that
  contains the readiness phrase is words separated by whitespace: \<open>lead\<close>, the first word
  \<open>t0\<close>, then for each further word the whitespace before it and the word, then \<open>trail\<close>.
  The integers extracted are the values of the words that consist of decimal digits only, in
  order. When there are at least two, the row becomes a connected row whose array number is
  the first and whose number of motors is the second. When there are fewer than two, the
  error flag is set and the line written is the one for a bad array or motor number, which is
  not the line a device that sends nothing gets (the timeout).
\<close>

theorem handshake_array_info:
  assumes "\<forall>c \<in> set lead \<union> set trail. isspace c"
    and "t0 \<noteq> [] \<and> (\<forall>c \<in> set t0. \<not> isspace c)"
    and "\<forall>(ws, t) \<in> set others. ws \<noteq> [] \<and> (\<forall>c \<in> set ws. isspace c)
             \<and> t \<noteq> [] \<and> (\<forall>c \<in> set t. \<not> isspace c)"
    and "payload = lead @ t0 @ concat (map (\<lambda>(ws, t). ws @ t) others) @ trail"
    and "\<forall>b \<in> set payload. (of_char b :: nat) < 128 \<and> b \<noteq> CHR ''<'' \<and> b \<noteq> CHR ''>''"
    and "py_find payload ''Arduino is ready'' \<noteq> - 1"
    and "incoming s = ''<'' @ payload @ ''>'' @ stream"
  shows "wait_for_arduino_connection_execute (incoming s)
       = Returns (map py_int (filter isdigit (t0 # map snd others)), stream)
     \<and> (\<forall>array motor_count rest.
          map py_int (filter isdigit (t0 # map snd others)) = array # motor_count # rest \<longrightarrow>
          wait_for_arduino_connection port (Opened a (Serial s))
            = ([''Serial Port '' @ py_str (int port) @ '' '' @ green ''READY''],
               Connected \<lparr>address = a, connection = Serial (s\<lparr>incoming := stream\<rparr>),
                  array_number = array, motors = motor_count\<rparr>,
               Some (False, Connected \<lparr>address = a, connection = Serial (s\<lparr>incoming := stream\<rparr>),
                  array_number = array, motors = motor_count\<rparr>)))
     \<and> (length (filter isdigit (t0 # map snd others)) < 2 \<longrightarrow>
          wait_for_arduino_connection port (Opened a (Serial s))
            = ([''Serial Port '' @ py_str (int port) @ '' ''
                @ red ''FAILED: NEGATIVE ARRAY NUMBER OR MOTOR NUMBER PASSED''],
               Opened a (Serial (s\<lparr>incoming := stream\<rparr>)),
               Some (True, Opened a (Serial (s\<lparr>incoming := stream\<rparr>))))
          \<and> fst (wait_for_arduino_connection port (Opened a (Serial s)))
            \<noteq> fst (wait_for_arduino_connection port (Opened a (Serial (s\<lparr>incoming := []\<rparr>)))))"
proof -
  let ?info = "map py_int (filter isdigit (t0 # map snd others))"
  have split: "py_split payload = t0 # map snd others"
    unfolding assms(4) using assms(1,2,3) by (intro py_split_words) auto
  have exec: "wait_for_arduino_connection_execute (incoming s) = Returns (?info, stream)"
    using wait_for_arduino_connection_execute_ready [of "[]" payload stream] assms(5,6)
    unfolding assms(7) by (simp add: array_info_of_def split)
  note returns = wait_for_arduino_connection_returns [OF exec, of port a]
  have ready: "wait_for_arduino_connection port (Opened a (Serial s))
            = ([''Serial Port '' @ py_str (int port) @ '' '' @ green ''READY''],
               Connected \<lparr>address = a, connection = Serial (s\<lparr>incoming := stream\<rparr>),
                  array_number = array, motors = motor_count\<rparr>,
               Some (False, Connected \<lparr>address = a, connection = Serial (s\<lparr>incoming := stream\<rparr>),
                  array_number = array, motors = motor_count\<rparr>))"
    if "?info = array # motor_count # rest" for array motor_count rest
    unfolding returns that by simp
  have silent: "fst (wait_for_arduino_connection port (Opened a (Serial (s\<lparr>incoming := []\<rparr>))))
      = [''Serial Port '' @ py_str (int port) @ '' '' @ red ''FAILED: WAITING FOR MESSAGE TIMEOUT'']"
    by (simp add: wait_for_arduino_connection_def wait_for_arduino_connection_execute_def
        wait_for_ready.simps py_find_def Let_def)
  have negative: "wait_for_arduino_connection port (Opened a (Serial s))
            = ([''Serial Port '' @ py_str (int port) @ '' ''
                @ red ''FAILED: NEGATIVE ARRAY NUMBER OR MOTOR NUMBER PASSED''],
               Opened a (Serial (s\<lparr>incoming := stream\<rparr>)),
               Some (True, Opened a (Serial (s\<lparr>incoming := stream\<rparr>))))"
    if "length (filter isdigit (t0 # map snd others)) < 2"
  proof -
    from that have "length ?info < 2" by simp
    then show ?thesis unfolding returns by (simp only: if_True)
  qed
  have differ: "[''Serial Port '' @ py_str (int port) @ '' ''
                @ red ''FAILED: NEGATIVE ARRAY NUMBER OR MOTOR NUMBER PASSED'']
      \<noteq> [''Serial Port '' @ py_str (int port) @ '' '' @ red ''FAILED: WAITING FOR MESSAGE TIMEOUT'']"
    by (simp add: red_def)
  show ?thesis
  proof (intro conjI allI impI)
    show "wait_for_arduino_connection_execute (incoming s) = Returns (?info, stream)"
      by (rule exec)
  next
    fix array motor_count rest
    assume "?info = array # motor_count # rest"
    then show "wait_for_arduino_connection port (Opened a (Serial s))
            = ([''Serial Port '' @ py_str (int port) @ '' '' @ green ''READY''],
               Connected \<lparr>address = a, connection = Serial (s\<lparr>incoming := stream\<rparr>),
                  array_number = array, motors = motor_count\<rparr>,
               Some (False, Connected \<lparr>address = a, connection = Serial (s\<lparr>incoming := stream\<rparr>),
                  array_number = array, motors = motor_count\<rparr>))"
      by (rule ready)
  next
    assume "length (filter isdigit (t0 # map snd others)) < 2"
    then show "wait_for_arduino_connection port (Opened a (Serial s))
            = ([''Serial Port '' @ py_str (int port) @ '' ''
                @ red ''FAILED: NEGATIVE ARRAY NUMBER OR MOTOR NUMBER PASSED''],
               Opened a (Serial (s\<lparr>incoming := stream\<rparr>)),
               Some (True, Opened a (Serial (s\<lparr>incoming := stream\<rparr>))))"
      by (rule negative)
  next
    assume "length (filter isdigit (t0 # map snd others)) < 2"
    then show "fst (wait_for_arduino_connection port (Opened a (Serial s)))
            \<noteq> fst (wait_for_arduino_connection port (Opened a (Serial (s\<lparr>incoming := []\<rparr>))))"
      using negative differ unfolding silent by simp
  qed
qed

theorem handshake_array_info_witness:
  "wait_for_arduino_connection 0
     (Opened ''/dev/ttyUSB0'' (Serial \<lparr>is_open = True, incoming = ''<Arduino is ready  2 5>''\<rparr>))
   = ([''Serial Port '' @ py_str 0 @ '' '' @ green ''READY''],
      Connected \<lparr>address = ''/dev/ttyUSB0'',
        connection = Serial \<lparr>is_open = True, incoming = []\<rparr>, array_number = 2, motors = 5\<rparr>,
      Some (False, Connected \<lparr>address = ''/dev/ttyUSB0'',
        connection = Serial \<lparr>is_open = True, incoming = []\<rparr>, array_number = 2, motors = 5\<rparr>))
   \<and> wait_for_arduino_connection 1
     (Opened ''/dev/ttyUSB1'' (Serial \<lparr>is_open = True, incoming = ''<Arduino is ready 3>''\<rparr>))
   = ([''Serial Port '' @ py_str 1 @ '' ''
        @ red ''FAILED: NEGATIVE ARRAY NUMBER OR MOTOR NUMBER PASSED''],
      Opened ''/dev/ttyUSB1'' (Serial \<lparr>is_open = True, incoming = []\<rparr>),
      Some (True, Opened ''/dev/ttyUSB1'' (Serial \<lparr>is_open = True, incoming = []\<rparr>)))"
proof -
  have a: "wait_for_arduino_connection 0
     (Opened ''/dev/ttyUSB0'' (Serial \<lparr>is_open = True, incoming = ''<Arduino is ready  2 5>''\<rparr>))
   = ([''Serial Port '' @ py_str 0 @ '' '' @ green ''READY''],
      Connected \<lparr>address = ''/dev/ttyUSB0'',
        connection = Serial \<lparr>is_open = True, incoming = []\<rparr>, array_number = 2, motors = 5\<rparr>,
      Some (False, Connected \<lparr>address = ''/dev/ttyUSB0'',
        connection = Serial \<lparr>is_open = True, incoming = []\<rparr>, array_number = 2, motors = 5\<rparr>))"
    using handshake_array_info [of "[]" "[]" "''Arduino''"
        "[('' '', ''is''), ('' '', ''ready''), (''  '', ''2''), ('' '', ''5'')]"
        "''Arduino is ready  2 5''" "\<lparr>is_open = True, incoming = ''<Arduino is ready  2 5>''\<rparr>"
        "[]" 0 "''/dev/ttyUSB0''"]
    by (simp add: isspace_def py_find_def isdigit_def is_digit_def py_int_def)
  have b: "wait_for_arduino_connection 1
     (Opened ''/dev/ttyUSB1'' (Serial \<lparr>is_open = True, incoming = ''<Arduino is ready 3>''\<rparr>))
   = ([''Serial Port '' @ py_str 1 @ '' ''
        @ red ''FAILED: NEGATIVE ARRAY NUMBER OR MOTOR NUMBER PASSED''],
      Opened ''/dev/ttyUSB1'' (Serial \<lparr>is_open = True, incoming = []\<rparr>),
      Some (True, Opened ''/dev/ttyUSB1'' (Serial \<lparr>is_open = True, incoming = []\<rparr>)))"
    using handshake_array_info [of "[]" "[]" "''Arduino''"
        "[('' '', ''is''), ('' '', ''ready''), ('' '', ''3'')]"
        "''Arduino is ready 3''" "\<lparr>is_open = True, incoming = ''<Arduino is ready 3>''\<rparr>"
        "[]" 1 "''/dev/ttyUSB1''"]
    by (simp add: isspace_def py_find_def isdigit_def is_digit_def py_int_def)
  show ?thesis using a b by simp
qed

text \<open>
  Claim C3 as stated fails: digits that are part of a word are not extracted. The payload
  \<^verbatim>\<open>Arduino is ready 2,5\<close> holds the readiness phrase and the digit runs 2 and 5, but its
  only word with a digit is \<^verbatim>\<open>2,5\<close>, so no integer is extracted and the handshake ends with
  the error flag set.
\<close>

theorem handshake_digits_inside_words:
  "py_find ''Arduino is ready 2,5'' ''Arduino is ready'' \<noteq> - 1
   \<and> spec_digit_runs ''Arduino is ready 2,5'' = [2, 5]
   \<and> array_info_of ''Arduino is ready 2,5'' = []
   \<and> wait_for_arduino_connection 0
     (Opened ''/dev/ttyUSB0'' (Serial \<lparr>is_open = True, incoming = ''<Arduino is ready 2,5>''\<rparr>))
   = ([''Serial Port '' @ py_str 0 @ '' ''
        @ red ''FAILED: NEGATIVE ARRAY NUMBER OR MOTOR NUMBER PASSED''],
      Opened ''/dev/ttyUSB0'' (Serial \<lparr>is_open = True, incoming = []\<rparr>),
      Some (True, Opened ''/dev/ttyUSB0'' (Serial \<lparr>is_open = True, incoming = []\<rparr>)))"
  by (simp add: wait_for_arduino_connection_def wait_for_arduino_connection_execute_def
      wait_for_ready.simps py_find_def recieve_from_arduino_def decode_def START_MARKER_def
      END_MARKER_def array_info_of_def py_split_def isspace_def isdigit_def is_digit_def
      py_int_def py_index_def Let_def spec_digit_runs_def)

end
